theory Spec2Isabelle
  imports Complex_Main "HOL-Library.AList"
begin

section \<open>Values and exceptions\<close>

text \<open>
  A decoded JSON document, as \<^verbatim>\<open>response.json()\<close> hands it to the parsers. A Python
  \<^verbatim>\<open>dict\<close> keeps its keys unique and in insertion order, so it is an association
  list; a \<^verbatim>\<open>str\<close> is a \<open>string\<close> whose characters stand for the code points of the
  Python string; a finite \<^verbatim>\<open>float\<close> is the rational number it denotes.
\<close>

datatype json =
    JNull
  | JBool bool
  | JInt int
  | JFloat rat
  | JStr string
  | JList "json list"
  | JDict "(string \<times> json) list"

text \<open>
  The exceptions of \<^verbatim>\<open>moex-fetcher-exceptions.py\<close> with the fields the functions
  below set (message, status code, retry-after, original error), the built-in exceptions
  the interpreter raises by itself, and \<open>RequestException\<close> for what the transport
  raises. The \<^verbatim>\<open>response\<close> and \<^verbatim>\<open>data\<close> references of the Moex exceptions are
  not kept.
\<close>

datatype py_exc =
    AttributeError
  | TypeError
  | KeyError
  | ValueError string
  | RequestException string
  | MoexApiError string "int option"
  | MoexConnectionError string "py_exc option"
  | MoexResponseError string "int option"
  | MoexAuthError string "int option"
  | MoexRateLimitError string "int option" "int option"
  | MoexParsingError string "py_exc option"

text \<open>\<^verbatim>\<open>isinstance(e, MoexApiError)\<close>: every class of the module derives from the root.\<close>

fun is_MoexApiError :: "py_exc \<Rightarrow> bool" where
  "is_MoexApiError (MoexApiError _ _) = True"
| "is_MoexApiError (MoexConnectionError _ _) = True"
| "is_MoexApiError (MoexResponseError _ _) = True"
| "is_MoexApiError (MoexAuthError _ _) = True"
| "is_MoexApiError (MoexRateLimitError _ _ _) = True"
| "is_MoexApiError (MoexParsingError _ _) = True"
| "is_MoexApiError _ = False"

fun is_MoexParsingError :: "py_exc \<Rightarrow> bool" where
  "is_MoexParsingError (MoexParsingError _ _) = True"
| "is_MoexParsingError _ = False"

subsection \<open>Decimal rendering of integers (\<^verbatim>\<open>str(n)\<close>)\<close>

definition digit_char :: "nat \<Rightarrow> char" where
  "digit_char n = char_of (48 + n)"

fun str_nat :: "nat \<Rightarrow> string" where
  "str_nat n = (if n < 10 then [digit_char n] else str_nat (n div 10) @ [digit_char (n mod 10)])"

declare str_nat.simps [simp del]

definition str_int :: "int \<Rightarrow> string" where
  "str_int i = (if i < 0 then CHR ''-'' # str_nat (nat (- i)) else str_nat (nat i))"

section \<open>Response parser\<close>

subsection \<open>The built-ins \<^verbatim>\<open>len\<close>, \<^verbatim>\<open>iter\<close>, \<^verbatim>\<open>dict\<close>\<close>

fun py_len :: "json \<Rightarrow> py_exc + nat" where
  "py_len (JList xs) = Inr (length xs)"
| "py_len (JStr s) = Inr (length s)"
| "py_len (JDict d) = Inr (length d)"
| "py_len _ = Inl TypeError"

fun py_iter :: "json \<Rightarrow> py_exc + json list" where
  "py_iter (JList xs) = Inr xs"
| "py_iter (JStr s) = Inr (map (\<lambda>c. JStr [c]) s)"
| "py_iter (JDict d) = Inr (map (\<lambda>kv. JStr (fst kv)) d)"
| "py_iter _ = Inl TypeError"

fun hashable :: "json \<Rightarrow> bool" where
  "hashable (JList _) = False"
| "hashable (JDict _) = False"
| "hashable _ = True"

fun num_of :: "json \<Rightarrow> rat option" where
  "num_of (JBool b) = Some (if b then 1 else 0)"
| "num_of (JInt i) = Some (of_int i)"
| "num_of (JFloat r) = Some r"
| "num_of _ = None"

text \<open>Equality of dictionary keys: numbers compare by value (\<^verbatim>\<open>1 == 1.0 == True\<close>).\<close>

definition key_eq :: "json \<Rightarrow> json \<Rightarrow> bool" where
  "key_eq a b =
     (case (num_of a, num_of b) of
        (Some x, Some y) \<Rightarrow> x = y
      | (None, None) \<Rightarrow> a = b
      | _ \<Rightarrow> False)"

type_synonym row_dict = "(json \<times> json) list"

text \<open>\<^verbatim>\<open>d[k] = v\<close>: an existing key keeps its place and its first spelling.\<close>

fun dict_setitem :: "row_dict \<Rightarrow> json \<Rightarrow> json \<Rightarrow> row_dict" where
  "dict_setitem [] k v = [(k, v)]"
| "dict_setitem ((k', v') # d) k v =
     (if key_eq k' k then (k', v) # d else (k', v') # dict_setitem d k v)"

text \<open>\<^verbatim>\<open>dict(pairs)\<close>, filling \<open>acc\<close> from the left; an unhashable key raises.\<close>

fun dict_of_pairs :: "(json \<times> json) list \<Rightarrow> row_dict \<Rightarrow> py_exc + row_dict" where
  "dict_of_pairs [] acc = Inr acc"
| "dict_of_pairs ((k, v) # ps) acc =
     (if hashable k then dict_of_pairs ps (dict_setitem acc k v) else Inl TypeError)"

definition dict_keys :: "row_dict \<Rightarrow> json list" where
  "dict_keys d = map fst d"

definition dict_values :: "row_dict \<Rightarrow> json list" where
  "dict_values d = map snd d"

subsection \<open>\<^verbatim>\<open>parse_json_response\<close>\<close>

definition mismatch_message :: "string \<Rightarrow> nat \<Rightarrow> nat \<Rightarrow> string" where
  "mismatch_message block_name ncols nrow =
     ''Column count mismatch in block '' @ [CHR 0x27] @ block_name @ [CHR 0x27] @ '': ''
     @ str_nat ncols @ '' columns defined but row has '' @ str_nat nrow @ '' values''"

text \<open>The inner loop \<^verbatim>\<open>for row in data\<close>, with \<open>rows\<close> the list built so far.\<close>

fun parse_rows :: "string \<Rightarrow> json \<Rightarrow> json list \<Rightarrow> row_dict list \<Rightarrow> py_exc + row_dict list" where
  "parse_rows block_name columns [] rows = Inr rows"
| "parse_rows block_name columns (row # rest) rows =
     (case py_len row of
        Inl e \<Rightarrow> Inl e
      | Inr nrow \<Rightarrow>
         (case py_len columns of
            Inl e \<Rightarrow> Inl e
          | Inr ncols \<Rightarrow>
             if nrow \<noteq> ncols
             then Inl (MoexParsingError (mismatch_message block_name ncols nrow) None)
             else
               (case py_iter columns of
                  Inl e \<Rightarrow> Inl e
                | Inr cs \<Rightarrow>
                   (case py_iter row of
                      Inl e \<Rightarrow> Inl e
                    | Inr vs \<Rightarrow>
                       (case dict_of_pairs (zip cs vs) [] of
                          Inl e \<Rightarrow> Inl e
                        | Inr row_dict \<Rightarrow>
                            parse_rows block_name columns rest (rows @ [row_dict]))))))"

type_synonym parsed = "(string \<times> row_dict list) list"

text \<open>
  The test of line 40: the entry is a data block when its value is a \<^verbatim>\<open>dict\<close> holding
  both keys.
\<close>

fun is_block :: "json \<Rightarrow> bool" where
  "is_block (JDict b) = (map_of b ''columns'' \<noteq> None \<and> map_of b ''data'' \<noteq> None)"
| "is_block _ = False"

text \<open>The outer loop over \<^verbatim>\<open>response_data.items()\<close>, with \<open>result\<close> built so far.\<close>

fun parse_blocks :: "(string \<times> json) list \<Rightarrow> parsed \<Rightarrow> py_exc + parsed" where
  "parse_blocks [] result = Inr result"
| "parse_blocks ((block_name, block_content) # rest) result =
     (case block_content of
        JDict b \<Rightarrow>
          (case (map_of b ''columns'', map_of b ''data'') of
             (Some columns, Some data) \<Rightarrow>
               (case py_iter data of
                  Inl e \<Rightarrow> Inl e
                | Inr data_rows \<Rightarrow>
                   (case parse_rows block_name columns data_rows [] of
                      Inl e \<Rightarrow> Inl e
                    | Inr rows \<Rightarrow>
                        parse_blocks rest (AList.update block_name rows result)))
           | _ \<Rightarrow> parse_blocks rest result)
      | _ \<Rightarrow> parse_blocks rest result)"

text \<open>The body of the \<^verbatim>\<open>try\<close>: a value without \<^verbatim>\<open>.items()\<close> raises AttributeError.\<close>

fun parse_body :: "json \<Rightarrow> py_exc + parsed" where
  "parse_body (JDict d) = parse_blocks d []"
| "parse_body _ = Inl AttributeError"

text \<open>\<^verbatim>\<open>except (KeyError, TypeError) as e\<close>: only these two are wrapped.\<close>

definition parse_json_response :: "json \<Rightarrow> py_exc + parsed" where
  "parse_json_response response_data =
     (case parse_body response_data of
        Inl KeyError \<Rightarrow>
          Inl (MoexParsingError ''Failed to parse API response'' (Some KeyError))
      | Inl TypeError \<Rightarrow>
          Inl (MoexParsingError ''Failed to parse API response'' (Some TypeError))
      | Inl e \<Rightarrow> Inl e
      | Inr result \<Rightarrow> Inr result)"

subsection \<open>Well-formed blocks\<close>

text \<open>
  A Response Block as the wire contract has it: \<^verbatim>\<open>columns\<close> is a list of strings,
  \<^verbatim>\<open>data\<close> a list of rows, each row a list of values.
\<close>

fun str_names :: "json list \<Rightarrow> string list option" where
  "str_names [] = Some []"
| "str_names (JStr s # cs) = map_option (\<lambda>ns. s # ns) (str_names cs)"
| "str_names (_ # cs) = None"

fun list_rows :: "json list \<Rightarrow> json list list option" where
  "list_rows [] = Some []"
| "list_rows (JList vs # rs) = map_option (\<lambda>vss. vs # vss) (list_rows rs)"
| "list_rows (_ # rs) = None"

fun json_list :: "json \<Rightarrow> json list option" where
  "json_list (JList xs) = Some xs"
| "json_list _ = None"

fun block_field :: "string \<Rightarrow> json \<Rightarrow> json option" where
  "block_field k (JDict b) = map_of b k"
| "block_field k _ = None"

definition columns_list :: "json \<Rightarrow> json list option" where
  "columns_list v = Option.bind (block_field ''columns'' v) json_list"

definition data_rows :: "json \<Rightarrow> json list list option" where
  "data_rows v = Option.bind (Option.bind (block_field ''data'' v) json_list) list_rows"

definition block_columns :: "json \<Rightarrow> json list" where
  "block_columns v = (case columns_list v of Some cs \<Rightarrow> cs | None \<Rightarrow> [])"

definition block_rows :: "json \<Rightarrow> json list list" where
  "block_rows v = (case data_rows v of Some vss \<Rightarrow> vss | None \<Rightarrow> [])"

text \<open>
  The block is length-matched: it has both keys, as lists, and every row is a list as
  long as \<^verbatim>\<open>columns\<close>.
\<close>

definition length_matched :: "json \<Rightarrow> bool" where
  "length_matched v =
     (case columns_list v of
        None \<Rightarrow> False
      | Some cs \<Rightarrow>
         (case data_rows v of
            None \<Rightarrow> False
          | Some vss \<Rightarrow> list_all (\<lambda>vs. length vs = length cs) vss))"

text \<open>The column names are strings, no two of them equal.\<close>

definition unique_names :: "json \<Rightarrow> bool" where
  "unique_names v =
     (case columns_list v of
        None \<Rightarrow> False
      | Some cs \<Rightarrow> (case str_names cs of Some ns \<Rightarrow> distinct ns | None \<Rightarrow> False))"

definition wf_block :: "json \<Rightarrow> bool" where
  "wf_block v = (length_matched v \<and> unique_names v)"

text \<open>The rows the parser is to produce for a block: \<^verbatim>\<open>columns\<close> zipped with each row.\<close>

definition rows_of_block :: "json \<Rightarrow> row_dict list" where
  "rows_of_block v = map (zip (block_columns v)) (block_rows v)"

definition expected_blocks :: "(string \<times> json) list \<Rightarrow> parsed" where
  "expected_blocks d =
     map (\<lambda>nv. (fst nv, rows_of_block (snd nv))) (filter (\<lambda>nv. is_block (snd nv)) d)"

text \<open>
  Sample documents: the engines listing of the test-suite (with a metadata entry beside
  it), and a block whose two columns carry the same name.
\<close>

definition engines_example :: "(string \<times> json) list" where
  "engines_example =
     [(''engines'',
        JDict [(''columns'', JList [JStr ''id'', JStr ''name'', JStr ''title'']),
               (''data'', JList [JList [JStr ''stock'', JStr ''stock'', JStr ''Stock market''],
                                 JList [JStr ''currency'', JStr ''currency'', JStr ''FX market'']])]),
      (''total'', JInt 2)]"

definition twin_columns_block :: json where
  "twin_columns_block =
     JDict [(''columns'', JList [JStr ''a'', JStr ''a'']),
            (''data'', JList [JList [JInt 1, JInt 2]])]"

definition short_row_example :: "(string \<times> json) list" where
  "short_row_example =
     [(''engines'',
        JDict [(''columns'', JList [JStr ''id'', JStr ''name'']),
               (''data'', JList [JList [JStr ''stock'', JStr ''stock''],
                                 JList [JStr ''currency'']])])]"

section \<open>Column normalizer\<close>

text \<open>
  A pandas DataFrame, as far as \<^verbatim>\<open>normalize_dataframe\<close> looks at it: the columns in
  their order, each a label with its values, and the index, which is either the default
  range over the rows or a column moved there by \<^verbatim>\<open>set_index\<close>. The labels are taken
  to be distinct, as those of a frame built from row dictionaries are. The cell type
  \<open>'c\<close> and the three conversions of pandas (\<^verbatim>\<open>pd.to_datetime\<close> and
  \<^verbatim>\<open>pd.to_numeric\<close> with \<^verbatim>\<open>errors='coerce'\<close>, \<^verbatim>\<open>astype('category')\<close>) are
  parameters.
\<close>

datatype 'c index = RangeIndex nat | ColumnIndex string "'c list"

record 'c dataframe =
  df_index :: "'c index"
  df_columns :: "(string \<times> 'c list) list"

record 'c pandas =
  to_datetime :: "'c list \<Rightarrow> 'c list"
  to_numeric :: "'c list \<Rightarrow> 'c list"
  astype_category :: "'c list \<Rightarrow> 'c list"

text \<open>\<^verbatim>\<open>if col in df.columns: df[col] = f(df[col])\<close>\<close>

definition convert_column :: "('c list \<Rightarrow> 'c list) \<Rightarrow> 'c dataframe \<Rightarrow> string \<Rightarrow> 'c dataframe" where
  "convert_column f df col =
     (case map_of (df_columns df) col of
        Some vals \<Rightarrow> df\<lparr>df_columns := AList.update col (f vals) (df_columns df)\<rparr>
      | None \<Rightarrow> df)"

text \<open>\<^verbatim>\<open>if cols: for col in cols: ...\<close> (\<^verbatim>\<open>None\<close> and the empty list are both false)\<close>

definition convert_columns ::
  "('c list \<Rightarrow> 'c list) \<Rightarrow> string list option \<Rightarrow> 'c dataframe \<Rightarrow> 'c dataframe" where
  "convert_columns f cols df =
     (case cols of
        None \<Rightarrow> df
      | Some cs \<Rightarrow> if cs \<noteq> [] then foldl (convert_column f) df cs else df)"

text \<open>\<^verbatim>\<open>df.set_index(col, inplace=True)\<close>: the column leaves the columns and replaces the index.\<close>

definition set_index :: "'c dataframe \<Rightarrow> string \<Rightarrow> 'c dataframe" where
  "set_index df col =
     (case map_of (df_columns df) col of
        Some vals \<Rightarrow> \<lparr>df_index = ColumnIndex col vals, df_columns = AList.delete col (df_columns df)\<rparr>
      | None \<Rightarrow> df)"

definition normalize_dataframe ::
  "'c pandas \<Rightarrow> 'c dataframe \<Rightarrow> string list option \<Rightarrow> string list option
     \<Rightarrow> string list option \<Rightarrow> string option \<Rightarrow> 'c dataframe" where
  "normalize_dataframe pd df date_columns numeric_columns categorical_columns index_column =
     (let df_copy = df;
          df_copy = convert_columns (to_datetime pd) date_columns df_copy;
          df_copy = convert_columns (to_numeric pd) numeric_columns df_copy;
          df_copy = convert_columns (astype_category pd) categorical_columns df_copy
      in case index_column of
           None \<Rightarrow> df_copy
         | Some col \<Rightarrow>
             if col \<noteq> [] \<and> col \<in> set (map fst (df_columns df_copy))
             then set_index df_copy col
             else df_copy)"

section \<open>Endpoint functions\<close>

subsection \<open>\<^verbatim>\<open>get_stock_candles\<close>\<close>

definition interval_map :: "(string \<times> int) list" where
  "interval_map =
     [(''min'', 1), (''1min'', 1), (''10min'', 10), (''hour'', 60), (''day'', 24),
      (''week'', 7), (''month'', 31), (''quarter'', 4)]"

text \<open>\<^verbatim>\<open>sep.join(items)\<close>\<close>

fun join :: "string \<Rightarrow> string list \<Rightarrow> string" where
  "join sep [] = []"
| "join sep [x] = x"
| "join sep (x # y # ys) = x @ sep @ join sep (y # ys)"

text \<open>The keyword arguments of \<^verbatim>\<open>client.get_candles\<close>; \<open>'d\<close> is the type of a date argument.\<close>

record 'd candles_request =
  security_id :: string
  engine :: string
  market :: string
  board :: string
  interval :: int
  start_date :: "'d option"
  end_date :: "'d option"

definition invalid_interval_message :: "string \<Rightarrow> string" where
  "invalid_interval_message name =
     ''Invalid interval: '' @ [CHR 0x27] @ name @ [CHR 0x27] @ ''. ''
     @ ''Valid intervals are: '' @ join '', '' (map fst interval_map)"

text \<open>The client's method \<^verbatim>\<open>get_candles\<close>, which goes to the network, is the parameter \<open>get_candles\<close>.\<close>

definition get_stock_candles ::
  "('d candles_request \<Rightarrow> py_exc + 'r) \<Rightarrow> string \<Rightarrow> string \<Rightarrow> 'd option \<Rightarrow> 'd option \<Rightarrow> string
     \<Rightarrow> py_exc + 'r" where
  "get_stock_candles get_candles ticker interval_name start end board_id =
     (case map_of interval_map interval_name of
        None \<Rightarrow> Inl (ValueError (invalid_interval_message interval_name))
      | Some interval_code \<Rightarrow>
          get_candles \<lparr>security_id = ticker, engine = ''stock'', market = ''shares'',
                       board = board_id, interval = interval_code,
                       start_date = start, end_date = end\<rparr>)"

section \<open>Client\<close>

text \<open>
  The attributes of \<^verbatim>\<open>MoexApiClient\<close>. Seconds are rational numbers; \<open>'s\<close> is the type
  of a \<^verbatim>\<open>requests.Session\<close>.
\<close>

record 's client =
  base_url :: string
  session :: 's
  rate_limit :: rat
  timeout :: "int option"
  last_request_time :: rat

definition BASE_URL :: string where
  "BASE_URL = ''https://iss.moex.com/iss''"

definition RATE_LIMIT :: rat where
  "RATE_LIMIT = 2 / 10"

text \<open>
  \<^verbatim>\<open>__init__\<close>; \<open>new_session\<close> is what \<^verbatim>\<open>requests.Session()\<close> would create. A
  session object is always true; a number is true when it is not zero.
\<close>

definition client_init :: "'s \<Rightarrow> 's option \<Rightarrow> rat option \<Rightarrow> int option \<Rightarrow> 's client" where
  "client_init new_session session_arg rate_limit_arg timeout_arg =
     \<lparr>base_url = BASE_URL,
      session = (case session_arg of Some s \<Rightarrow> s | None \<Rightarrow> new_session),
      rate_limit = (case rate_limit_arg of
                      Some r \<Rightarrow> if r \<noteq> 0 then r else RATE_LIMIT
                    | None \<Rightarrow> RATE_LIMIT),
      timeout = timeout_arg,
      last_request_time = 0\<rparr>"

subsection \<open>\<^verbatim>\<open>_make_request\<close>\<close>

text \<open>
  What the request executor reads of a \<^verbatim>\<open>requests.Response\<close>: the status code and the
  headers, which \<^verbatim>\<open>requests\<close> looks up without regard to the case of the name.
\<close>

record response =
  status_code :: int
  headers :: "(string \<times> string) list"

definition lower_char :: "char \<Rightarrow> char" where
  "lower_char c =
     (let n = (of_char c :: nat) in if 65 \<le> n \<and> n \<le> 90 then char_of (n + 32) else c)"

definition upper_char :: "char \<Rightarrow> char" where
  "upper_char c =
     (let n = (of_char c :: nat) in if 97 \<le> n \<and> n \<le> 122 then char_of (n - 32) else c)"

text \<open>\<^verbatim>\<open>headers.get(name, fallback)\<close>\<close>

definition headers_get :: "(string \<times> string) list \<Rightarrow> string \<Rightarrow> string \<Rightarrow> string" where
  "headers_get hs name fallback =
     (case map_of (map (\<lambda>kv. (map lower_char (fst kv), snd kv)) hs) (map lower_char name) of
        Some v \<Rightarrow> v
      | None \<Rightarrow> fallback)"

text \<open>
  \<^verbatim>\<open>repr(s)\<close> of a string of code points below 256: double quotes when the string has
  an apostrophe and no double quote, single quotes otherwise; the backslash, the quote in
  use, tab, newline and carriage return are escaped with a backslash, every other character
  that is not printable is written \<^verbatim>\<open>\xNN\<close>.
\<close>

definition hex_digit :: "nat \<Rightarrow> char" where
  "hex_digit n = ''0123456789abcdef'' ! (n mod 16)"

definition printable :: "char \<Rightarrow> bool" where
  "printable c = (let n = (of_char c :: nat) in (32 \<le> n \<and> n < 127) \<or> (161 \<le> n \<and> n \<noteq> 173))"

definition repr_char :: "char \<Rightarrow> char \<Rightarrow> string" where
  "repr_char quote c =
     (let n = (of_char c :: nat) in
      if c = quote \<or> n = 92 then [CHR 0x5C, c]
      else if n = 9 then [CHR 0x5C, CHR ''t'']
      else if n = 10 then [CHR 0x5C, CHR ''n'']
      else if n = 13 then [CHR 0x5C, CHR ''r'']
      else if printable c then [c]
      else [CHR 0x5C, CHR ''x'', hex_digit (n div 16), hex_digit n])"

definition py_repr :: "string \<Rightarrow> string" where
  "py_repr s =
     (let quote = (if CHR 0x27 \<in> set s \<and> CHR 0x22 \<notin> set s then CHR 0x22 else CHR 0x27)
      in quote # concat (map (repr_char quote) s) @ [quote])"

text \<open>
  \<^verbatim>\<open>int(s)\<close> on a string, in base ten: white space around, an optional sign, then
  digits, which single underscores may separate. Of the code points below 256 the white
  space is tab to carriage return, the space, U+0085 and U+00A0. The interpreter scans the
  run of digits and underscores first, and refuses a run of more than \<open>max_str_digits\<close>
  digits before it looks at what follows (the limit is 4300 by default from Python 3.11
  on; \<open>None\<close> is no limit, as before 3.11 or with the limit set to 0). The message of an
  invalid literal shows at most 200 characters of the \<^verbatim>\<open>repr\<close> of the string.
\<close>

definition is_digit :: "char \<Rightarrow> bool" where
  "is_digit c = (let n = (of_char c :: nat) in 48 \<le> n \<and> n \<le> 57)"

definition digit_val :: "char \<Rightarrow> nat" where
  "digit_val c = of_char c - 48"

definition is_space :: "char \<Rightarrow> bool" where
  "is_space c = (let n = (of_char c :: nat) in (9 \<le> n \<and> n \<le> 13) \<or> n = 32 \<or> n = 133 \<or> n = 160)"

definition invalid_literal :: "string \<Rightarrow> py_exc" where
  "invalid_literal s =
     ValueError (''invalid literal for int() with base 10: '' @ take 200 (py_repr s))"

definition digits_limit_error :: "nat \<Rightarrow> nat \<Rightarrow> py_exc" where
  "digits_limit_error limit n =
     ValueError (''Exceeds the limit ('' @ str_nat limit
       @ '' digits) for integer string conversion: value has '' @ str_nat n
       @ '' digits; use sys.set_int_max_str_digits() to increase the limit'')"

text \<open>The value of a run of digits and underscores, the underscores skipped.\<close>

definition run_value :: "string \<Rightarrow> nat" where
  "run_value run = foldl (\<lambda>acc c. 10 * acc + digit_val c) 0 (filter is_digit run)"

text \<open>No underscore at either end of the run, and no two in a row.\<close>

fun underscores_ok :: "string \<Rightarrow> bool" where
  "underscores_ok [] = True"
| "underscores_ok [c] = (c \<noteq> CHR ''_'')"
| "underscores_ok (c # d # cs) =
     (\<not> (c = CHR ''_'' \<and> d = CHR ''_'') \<and> underscores_ok (d # cs))"

definition over_limit :: "nat option \<Rightarrow> nat \<Rightarrow> nat option" where
  "over_limit max_str_digits ndigits =
     (case max_str_digits of
        None \<Rightarrow> None
      | Some limit \<Rightarrow> if 0 < limit \<and> 640 < ndigits \<and> limit < ndigits then Some limit else None)"

definition py_int :: "nat option \<Rightarrow> string \<Rightarrow> py_exc + int" where
  "py_int max_str_digits s =
     (let t = dropWhile is_space s;
          negative = (t \<noteq> [] \<and> hd t = CHR ''-'');
          body = (if t \<noteq> [] \<and> (hd t = CHR ''-'' \<or> hd t = CHR ''+'') then tl t else t);
          run = takeWhile (\<lambda>c. is_digit c \<or> c = CHR ''_'') body;
          rest = dropWhile (\<lambda>c. is_digit c \<or> c = CHR ''_'') body;
          ndigits = length (filter is_digit run)
      in if run \<noteq> [] \<and> (hd run = CHR ''_'' \<or> \<not> underscores_ok run) then Inl (invalid_literal s)
         else
           (case over_limit max_str_digits ndigits of
              Some limit \<Rightarrow> Inl (digits_limit_error limit ndigits)
            | None \<Rightarrow>
                if run = [] \<or> dropWhile is_space rest \<noteq> [] then Inl (invalid_literal s)
                else Inr (if negative then - int (run_value run) else int (run_value run))))"

text \<open>Lines 135 to 156: the checks on the status of the response.\<close>

definition check_status :: "nat option \<Rightarrow> response \<Rightarrow> py_exc + response" where
  "check_status max_str_digits r =
     (if status_code r = 429 then
        (case py_int max_str_digits (headers_get (headers r) ''Retry-After'' ''60'') of
           Inl e \<Rightarrow> Inl e
         | Inr retry_after \<Rightarrow>
             Inl (MoexRateLimitError ''Rate limit exceeded'' (Some (status_code r)) (Some retry_after)))
      else if status_code r = 401 \<or> status_code r = 403 then
        Inl (MoexAuthError ''Authentication failed'' (Some (status_code r)))
      else if status_code r \<ge> 400 then
        Inl (MoexResponseError (''API returned error response: '' @ str_int (status_code r))
               (Some (status_code r)))
      else Inr r)"

text \<open>
  \<^verbatim>\<open>_enforce_rate_limit\<close>, when the clock reads \<open>now\<close>: the argument of
  \<^verbatim>\<open>time.sleep\<close>, or \<open>None\<close> when it does not sleep. The times are floats, that is
  the rationals they denote, and \<open>float_sub\<close> is the subtraction of floats, which rounds.
\<close>

definition enforce_rate_limit :: "(rat \<Rightarrow> rat \<Rightarrow> rat) \<Rightarrow> rat \<Rightarrow> 's client \<Rightarrow> rat option" where
  "enforce_rate_limit float_sub now self =
     (if rate_limit self \<noteq> 0 then
        (let elapsed = float_sub now (last_request_time self)
         in if elapsed < rate_limit self then Some (float_sub (rate_limit self) elapsed) else None)
      else None)"

fun is_RequestException :: "py_exc \<Rightarrow> bool" where
  "is_RequestException (RequestException _) = True"
| "is_RequestException _ = False"

text \<open>
  \<^verbatim>\<open>_make_request\<close>, from the request \<open>req\<close> that lines 107 to 120 build (URL, query
  parameters, timeout). \<open>session_get\<close> and \<open>session_post\<close> are the methods of the
  session: they return a response or raise. \<open>t_before\<close> and \<open>t_after\<close> are the readings of
  the clock in the rate limiter and after the response. The result comes with the sleep of
  the rate limiter and the client as the call leaves it.
\<close>

definition make_request ::
  "nat option \<Rightarrow> (rat \<Rightarrow> rat \<Rightarrow> rat) \<Rightarrow> ('q \<Rightarrow> py_exc + response) \<Rightarrow> ('q \<Rightarrow> py_exc + response)
     \<Rightarrow> 'q \<Rightarrow> string \<Rightarrow> rat \<Rightarrow> rat \<Rightarrow> 's client
     \<Rightarrow> (py_exc + response) \<times> rat option \<times> 's client" where
  "make_request max_str_digits float_sub session_get session_post req method t_before t_after self =
     (let slept = enforce_rate_limit float_sub t_before self;
          sent = (if map upper_char method = ''GET'' then session_get req
                  else if map upper_char method = ''POST'' then session_post req
                  else Inl (ValueError (''Unsupported HTTP method: '' @ method)))
      in case sent of
           Inl e \<Rightarrow>
             (if is_RequestException e
              then Inl (MoexConnectionError ''Failed to connect to MOEX API'' (Some e))
              else Inl e,
              slept, self)
         | Inr resp \<Rightarrow>
             (check_status max_str_digits resp, slept, self\<lparr>last_request_time := t_after\<rparr>))"

text \<open>A 429 response whose \<^verbatim>\<open>Retry-After\<close> header is an HTTP date.\<close>

definition retry_date_response :: response where
  "retry_date_response =
     \<lparr>status_code = 429, headers = [(''Retry-After'', ''Wed, 21 Oct 2015 07:28:00 GMT'')]\<rparr>"

subsection \<open>\<^verbatim>\<open>get_market_data_snapshot\<close>\<close>











section \<open>Dates\<close>

subsection \<open>Calendar dates, \<^verbatim>\<open>strftime\<close> and \<^verbatim>\<open>strptime\<close>\<close>

text \<open>
  A \<^verbatim>\<open>datetime.date\<close> and the time of day that a \<^verbatim>\<open>datetime.datetime\<close> adds to it.
  Python builds such an object only for a day of the proleptic Gregorian calendar in the
  years 1 to 9999 (\<open>valid_date\<close>).
\<close>

record date =
  year :: nat
  month :: nat
  day :: nat

record tod =
  hour :: nat
  minute :: nat
  second :: nat
  microsecond :: nat

definition midnight :: tod where
  "midnight = \<lparr>hour = 0, minute = 0, second = 0, microsecond = 0\<rparr>"

definition is_leap :: "nat \<Rightarrow> bool" where
  "is_leap y = (y mod 4 = 0 \<and> (y mod 100 \<noteq> 0 \<or> y mod 400 = 0))"

definition days_in_month :: "nat \<Rightarrow> nat \<Rightarrow> nat" where
  "days_in_month y m =
     (if m = 2 then (if is_leap y then 29 else 28)
      else if m \<in> {4, 6, 9, 11} then 30 else 31)"

definition valid_date :: "date \<Rightarrow> bool" where
  "valid_date d =
     (1 \<le> year d \<and> year d \<le> 9999 \<and> 1 \<le> month d \<and> month d \<le> 12
      \<and> 1 \<le> day d \<and> day d \<le> days_in_month (year d) (month d))"

text \<open>Comparison of dates, and the day number \<^verbatim>\<open>toordinal()\<close> that their difference uses.\<close>

definition date_less :: "date \<Rightarrow> date \<Rightarrow> bool" where
  "date_less a b =
     (year a < year b \<or> (year a = year b \<and> (month a < month b
        \<or> (month a = month b \<and> day a < day b))))"

definition days_before_year :: "nat \<Rightarrow> nat" where
  "days_before_year y = (let y1 = y - 1 in y1 * 365 + y1 div 4 - y1 div 100 + y1 div 400)"

definition days_before_month :: "nat \<Rightarrow> nat \<Rightarrow> nat" where
  "days_before_month y m = (\<Sum>k \<leftarrow> [1..<m]. days_in_month y k)"

definition toordinal :: "date \<Rightarrow> nat" where
  "toordinal d = days_before_year (year d) + days_before_month (year d) (month d) + day d"

text \<open>
  \<^verbatim>\<open>strftime('%Y-%m-%d')\<close>. The month and the day are written on two digits. The
  year is left to the C library of the platform: some write it on four digits, as the
  documentation of Python has it, others (glibc) write a year below 1000 without leading
  zeros. \<open>padded\<close> tells which platform it is.
\<close>

definition pad2 :: "nat \<Rightarrow> string" where
  "pad2 n = [digit_char (n div 10 mod 10), digit_char (n mod 10)]"

definition pad4 :: "nat \<Rightarrow> string" where
  "pad4 n = [digit_char (n div 1000 mod 10), digit_char (n div 100 mod 10),
             digit_char (n div 10 mod 10), digit_char (n mod 10)]"

definition strftime_ymd :: "bool \<Rightarrow> date \<Rightarrow> string" where
  "strftime_ymd padded d =
     (if padded then pad4 (year d) else str_nat (year d))
     @ ''-'' @ pad2 (month d) @ ''-'' @ pad2 (day d)"

text \<open>
  \<^verbatim>\<open>strptime\<close> for a format made of \<^verbatim>\<open>%Y\<close>, \<^verbatim>\<open>%m\<close>, \<^verbatim>\<open>%d\<close> and literal
  characters. The library turns the format into a regular expression, \<^verbatim>\<open>%Y\<close> into
  \<^verbatim>\<open>\d\d\d\d\<close>, \<^verbatim>\<open>%m\<close> into \<^verbatim>\<open>1[0-2]|0[1-9]|[1-9]\<close> and \<^verbatim>\<open>%d\<close> into
  \<^verbatim>\<open>3[01]|[12]\d|0[1-9]|[1-9]| [1-9]\<close>, takes the first match at the start of the
  string, refuses a string with characters left over, and builds the date, which fails for
  a day that the month does not have. The alternatives of a directive are listed in the
  order in which the expression tries them, each with the rest of the string.
\<close>

datatype directive = FmtY | Fmtm | Fmtd | Lit char

definition year_alts :: "string \<Rightarrow> (nat \<times> string) list" where
  "year_alts s =
     (case s of
        a # b # c # d # rest \<Rightarrow>
          if is_digit a \<and> is_digit b \<and> is_digit c \<and> is_digit d
          then [(1000 * digit_val a + 100 * digit_val b + 10 * digit_val c + digit_val d, rest)]
          else []
      | _ \<Rightarrow> [])"

definition two_char :: "(char \<Rightarrow> bool) \<Rightarrow> (char \<Rightarrow> bool) \<Rightarrow> string \<Rightarrow> (nat \<times> string) list" where
  "two_char p q s =
     (case s of
        a # b # rest \<Rightarrow> if p a \<and> q b then [(10 * digit_val a + digit_val b, rest)] else []
      | _ \<Rightarrow> [])"

definition one_char :: "(char \<Rightarrow> bool) \<Rightarrow> string \<Rightarrow> (nat \<times> string) list" where
  "one_char p s = (case s of a # rest \<Rightarrow> if p a then [(digit_val a, rest)] else [] | _ \<Rightarrow> [])"

definition in_range :: "char \<Rightarrow> char \<Rightarrow> char \<Rightarrow> bool" where
  "in_range lo hi c = ((of_char lo :: nat) \<le> of_char c \<and> (of_char c :: nat) \<le> of_char hi)"

definition space_digit :: "string \<Rightarrow> (nat \<times> string) list" where
  "space_digit s =
     (case s of
        a # b # rest \<Rightarrow>
          if a = CHR '' '' \<and> in_range CHR ''1'' CHR ''9'' b then [(digit_val b, rest)] else []
      | _ \<Rightarrow> [])"

definition month_alts :: "string \<Rightarrow> (nat \<times> string) list" where
  "month_alts s =
     two_char (\<lambda>c. c = CHR ''1'') (in_range CHR ''0'' CHR ''2'') s
     @ two_char (\<lambda>c. c = CHR ''0'') (in_range CHR ''1'' CHR ''9'') s
     @ one_char (in_range CHR ''1'' CHR ''9'') s"

definition day_alts :: "string \<Rightarrow> (nat \<times> string) list" where
  "day_alts s =
     two_char (\<lambda>c. c = CHR ''3'') (in_range CHR ''0'' CHR ''1'') s
     @ two_char (in_range CHR ''1'' CHR ''2'') is_digit s
     @ two_char (\<lambda>c. c = CHR ''0'') (in_range CHR ''1'' CHR ''9'') s
     @ one_char (in_range CHR ''1'' CHR ''9'') s
     @ space_digit s"

definition set_field :: "directive \<Rightarrow> nat \<Rightarrow> date \<Rightarrow> date" where
  "set_field f n d =
     (case f of FmtY \<Rightarrow> d\<lparr>year := n\<rparr> | Fmtm \<Rightarrow> d\<lparr>month := n\<rparr> | Fmtd \<Rightarrow> d\<lparr>day := n\<rparr>
      | Lit _ \<Rightarrow> d)"

text \<open>
  The match of the expression, with backtracking: \<open>regex_match\<close> matches the rest of the
  format, \<open>regex_alts\<close> tries the alternatives of the directive \<open>f\<close> in turn. The result
  is the fields read and what the match leaves of the string.
\<close>

fun regex_match :: "directive list \<Rightarrow> string \<Rightarrow> date \<Rightarrow> (date \<times> string) option"
  and regex_alts :: "directive \<Rightarrow> directive list \<Rightarrow> (nat \<times> string) list \<Rightarrow> date \<Rightarrow> (date \<times> string) option"
where
  "regex_match [] s d = Some (d, s)"
| "regex_match (Lit c # fs) s d =
     (case s of a # rest \<Rightarrow> if a = c then regex_match fs rest d else None | [] \<Rightarrow> None)"
| "regex_match (FmtY # fs) s d = regex_alts FmtY fs (year_alts s) d"
| "regex_match (Fmtm # fs) s d = regex_alts Fmtm fs (month_alts s) d"
| "regex_match (Fmtd # fs) s d = regex_alts Fmtd fs (day_alts s) d"
| "regex_alts f fs [] d = None"
| "regex_alts f fs ((n, rest) # alts) d =
     (case regex_match fs rest (set_field f n d) of
        Some r \<Rightarrow> Some r
      | None \<Rightarrow> regex_alts f fs alts d)"

text \<open>The date the defaults of \<^verbatim>\<open>strptime\<close> give before a field is read.\<close>

definition date_1900 :: date where
  "date_1900 = \<lparr>year = 1900, month = 1, day = 1\<rparr>"

text \<open>The format as the caller writes it, for the message of \<^verbatim>\<open>strptime\<close>.\<close>

fun fmt_string :: "directive list \<Rightarrow> string" where
  "fmt_string [] = []"
| "fmt_string (FmtY # fs) = ''%Y'' @ fmt_string fs"
| "fmt_string (Fmtm # fs) = ''%m'' @ fmt_string fs"
| "fmt_string (Fmtd # fs) = ''%d'' @ fmt_string fs"
| "fmt_string (Lit c # fs) = c # fmt_string fs"

definition no_match_error :: "string \<Rightarrow> directive list \<Rightarrow> py_exc" where
  "no_match_error s fmt =
     ValueError (''time data '' @ py_repr s @ '' does not match format '' @ py_repr (fmt_string fmt))"

text \<open>
  \<^verbatim>\<open>strptime(s, fmt)\<close>, with its three ValueErrors: no match, characters left over,
  and the refusal of the date (with the message of Python 3.7 to 3.13).
\<close>

definition strptime :: "string \<Rightarrow> directive list \<Rightarrow> py_exc + date" where
  "strptime s fmt =
     (case regex_match fmt s date_1900 of
        None \<Rightarrow> Inl (no_match_error s fmt)
      | Some (d, rest) \<Rightarrow>
          if rest \<noteq> [] then Inl (ValueError (''unconverted data remains: '' @ rest))
          else if valid_date d then Inr d
          else if year d = 0 then Inl (ValueError ''year 0 is out of range'')
          else Inl (ValueError ''day is out of range for month''))"

text \<open>The four formats of \<^verbatim>\<open>format_date\<close>, in the order of its loop.\<close>

definition fmt_ymd_dash :: "directive list" where
  "fmt_ymd_dash = [FmtY, Lit CHR ''-'', Fmtm, Lit CHR ''-'', Fmtd]"

definition fmt_dmy_dot :: "directive list" where
  "fmt_dmy_dot = [Fmtd, Lit CHR ''.'', Fmtm, Lit CHR ''.'', FmtY]"

definition fmt_mdy_slash :: "directive list" where
  "fmt_mdy_slash = [Fmtm, Lit CHR ''/'', Fmtd, Lit CHR ''/'', FmtY]"

definition fmt_ymd_slash :: "directive list" where
  "fmt_ymd_slash = [FmtY, Lit CHR ''/'', Fmtm, Lit CHR ''/'', Fmtd]"

definition common_formats :: "directive list list" where
  "common_formats = [fmt_ymd_dash, fmt_dmy_dot, fmt_mdy_slash, fmt_ymd_slash]"

text \<open>A date written in a format, every field at its full width.\<close>

fun render :: "directive list \<Rightarrow> date \<Rightarrow> string" where
  "render [] d = []"
| "render (FmtY # fs) d = pad4 (year d) @ render fs d"
| "render (Fmtm # fs) d = pad2 (month d) @ render fs d"
| "render (Fmtd # fs) d = pad2 (day d) @ render fs d"
| "render (Lit c # fs) d = c # render fs d"

subsection \<open>\<^verbatim>\<open>format_date\<close> and \<^verbatim>\<open>validate_date_range\<close>\<close>

text \<open>
  The argument of \<^verbatim>\<open>format_date\<close>: a string, a date, a datetime, or a value of another
  type, of which the name of the type is kept.
\<close>

datatype date_value = DStr string | DDate date | DDateTime date tod | DOther string

text \<open>The loop over the formats: the first that parses the string.\<close>

fun try_formats :: "string \<Rightarrow> directive list list \<Rightarrow> date option" where
  "try_formats s [] = None"
| "try_formats s (fmt # fmts) =
     (case strptime s fmt of Inr d \<Rightarrow> Some d | Inl e \<Rightarrow> try_formats s fmts)"

text \<open>
  Lines 56 to 76 of \<^verbatim>\<open>format_date\<close>: the date object. \<open>fromisoformat\<close> is
  \<^verbatim>\<open>datetime.datetime.fromisoformat\<close>, whose grammar depends on the version of Python;
  \<open>None\<close> stands for its ValueError. The ValueError of the exhausted loop is raised again
  with the message of the outer handler.
\<close>

definition date_obj :: "(string \<Rightarrow> (date \<times> tod) option) \<Rightarrow> date_value \<Rightarrow> py_exc + date" where
  "date_obj fromisoformat date_value =
     (case date_value of
        DStr s \<Rightarrow>
          (case fromisoformat s of
             Some (d, t) \<Rightarrow> Inr d
           | None \<Rightarrow>
              (case try_formats s common_formats of
                 Some d \<Rightarrow> Inr d
               | None \<Rightarrow> Inl (ValueError (''Invalid date format: '' @ s))))
      | DDate d \<Rightarrow> Inr d
      | DDateTime d t \<Rightarrow> Inr d
      | DOther type_name \<Rightarrow>
          Inl (ValueError (''Expected date string or date object, got '' @ type_name)))"

definition format_date ::
  "bool \<Rightarrow> (string \<Rightarrow> (date \<times> tod) option) \<Rightarrow> date_value \<Rightarrow> py_exc + string" where
  "format_date padded fromisoformat date_value =
     (case date_obj fromisoformat date_value of
        Inl e \<Rightarrow> Inl e
      | Inr d \<Rightarrow> Inr (strftime_ymd padded d))"

text \<open>A string of the shape \<^verbatim>\<open>YYYY-MM-DD\<close>.\<close>

definition is_ymd_string :: "string \<Rightarrow> bool" where
  "is_ymd_string s =
     (length s = 10 \<and> list_all is_digit (take 4 s) \<and> s ! 4 = CHR ''-''
      \<and> list_all is_digit (take 2 (drop 5 s)) \<and> s ! 7 = CHR ''-''
      \<and> list_all is_digit (drop 8 s))"

definition start_after_end_message :: "string \<Rightarrow> string \<Rightarrow> string" where
  "start_after_end_message fs fe =
     ''Start date ('' @ fs @ '') is after end date ('' @ fe @ '')''"

definition interval_exceeded_message :: "int \<Rightarrow> int \<Rightarrow> string \<Rightarrow> string \<Rightarrow> string" where
  "interval_exceeded_message max_days days_diff fs fe =
     ''Date range exceeds maximum interval of '' @ str_int max_days @ '' days. ''
     @ ''Requested: '' @ str_int days_diff @ '' days ('' @ fs @ '' to '' @ fe @ '')''"

text \<open>\<^verbatim>\<open>validate_date_range\<close>; \<open>today\<close> is \<^verbatim>\<open>datetime.date.today()\<close>.\<close>

definition validate_date_range ::
  "bool \<Rightarrow> (string \<Rightarrow> (date \<times> tod) option) \<Rightarrow> date \<Rightarrow> date_value option \<Rightarrow> date_value option
     \<Rightarrow> int option \<Rightarrow> py_exc + (string \<times> string)" where
  "validate_date_range padded fromisoformat today start_arg end_arg max_interval_days =
     (let end_value = (case end_arg of None \<Rightarrow> DDate today | Some e \<Rightarrow> e) in
      case format_date padded fromisoformat end_value of
        Inl e \<Rightarrow> Inl e
      | Inr formatted_end_date \<Rightarrow>
         (case start_arg of
            None \<Rightarrow> Inr (formatted_end_date, formatted_end_date)
          | Some start_value \<Rightarrow>
             (case format_date padded fromisoformat start_value of
                Inl e \<Rightarrow> Inl e
              | Inr formatted_start_date \<Rightarrow>
                 (case strptime formatted_start_date fmt_ymd_dash of
                    Inl e \<Rightarrow> Inl e
                  | Inr start_obj \<Rightarrow>
                     (case strptime formatted_end_date fmt_ymd_dash of
                        Inl e \<Rightarrow> Inl e
                      | Inr end_obj \<Rightarrow>
                          if date_less end_obj start_obj
                          then Inl (ValueError
                                 (start_after_end_message formatted_start_date formatted_end_date))
                          else
                            (case max_interval_days of
                               None \<Rightarrow> Inr (formatted_start_date, formatted_end_date)
                             | Some max_days \<Rightarrow>
                                 (let days_diff = int (toordinal end_obj) - int (toordinal start_obj)
                                  in if days_diff > max_days
                                     then Inl (ValueError
                                            (interval_exceeded_message max_days days_diff
                                               formatted_start_date formatted_end_date))
                                     else Inr (formatted_start_date, formatted_end_date))))))))"

subsection \<open>\<^verbatim>\<open>datetime.fromisoformat\<close> of Python 3.7 to 3.10\<close>

text \<open>
  The parser as these versions document it:
  \<^verbatim>\<open>YYYY-MM-DD[*HH[:MM[:SS[.fff[fff]]]][+HH:MM[:SS[.ffffff]]]]\<close>, where \<^verbatim>\<open>*\<close> is any
  single character. Python 3.11 and later read more (dates without dashes, week dates, a
  final Z); no version reads an ordinal date \<^verbatim>\<open>YYYY-DDD\<close> or a date in one of the
  regional formats. The offset of the time zone is checked and dropped: nothing below reads
  it.
\<close>

definition digits_value :: "string \<Rightarrow> nat option" where
  "digits_value s =
     (if s \<noteq> [] \<and> list_all is_digit s
      then Some (foldl (\<lambda>acc c. 10 * acc + digit_val c) 0 s) else None)"

text \<open>\<^verbatim>\<open>HH[:MM[:SS[.fff[fff]]]]\<close>, and with \<open>tz\<close> the forms of an offset.\<close>

definition parse_hms :: "bool \<Rightarrow> string \<Rightarrow> tod option" where
  "parse_hms tz s =
     (let n = length s in
      if n \<notin> (if tz then {5, 8, 15} else {2, 5, 8, 12, 15}) then None
      else if (3 \<le> n \<and> s ! 2 \<noteq> CHR '':'') \<or> (6 \<le> n \<and> s ! 5 \<noteq> CHR '':'')
              \<or> (9 \<le> n \<and> s ! 8 \<noteq> CHR ''.'') then None
      else
        (case (digits_value (take 2 s),
               if 3 \<le> n then digits_value (take 2 (drop 3 s)) else Some 0,
               if 6 \<le> n then digits_value (take 2 (drop 6 s)) else Some 0,
               if 9 \<le> n then digits_value (drop 9 s) else Some 0) of
           (Some h, Some m, Some sec, Some f) \<Rightarrow>
             Some \<lparr>hour = h, minute = m, second = sec,
                   microsecond = (if n = 12 then 1000 * f else f)\<rparr>
         | _ \<Rightarrow> None))"

definition parse_isoformat_time :: "string \<Rightarrow> tod option" where
  "parse_isoformat_time s =
     (let is_sign = (\<lambda>c. c = CHR ''+'' \<or> c = CHR ''-'');
          time_part = takeWhile (\<lambda>c. \<not> is_sign c) s;
          tz_part = dropWhile (\<lambda>c. \<not> is_sign c) s
      in case parse_hms False time_part of
           None \<Rightarrow> None
         | Some t \<Rightarrow>
             if \<not> (hour t < 24 \<and> minute t < 60 \<and> second t < 60) then None
             else if tz_part = [] then Some t
             else
               (case parse_hms True (tl tz_part) of
                  None \<Rightarrow> None
                | Some off \<Rightarrow>
                    if hour off * 3600 + minute off * 60 + second off < 86400 then Some t
                    else None))"

definition parse_isoformat_date :: "string \<Rightarrow> date option" where
  "parse_isoformat_date s =
     (if length s = 10 \<and> s ! 4 = CHR ''-'' \<and> s ! 7 = CHR ''-'' then
        (case (digits_value (take 4 s), digits_value (take 2 (drop 5 s)), digits_value (drop 8 s)) of
           (Some y, Some m, Some d) \<Rightarrow>
             if valid_date \<lparr>year = y, month = m, day = d\<rparr>
             then Some \<lparr>year = y, month = m, day = d\<rparr> else None
         | _ \<Rightarrow> None)
      else None)"

definition fromisoformat_310 :: "string \<Rightarrow> (date \<times> tod) option" where
  "fromisoformat_310 s =
     (case parse_isoformat_date (take 10 s) of
        None \<Rightarrow> None
      | Some d \<Rightarrow>
          if length s = 10 then Some (d, midnight)
          else (case parse_isoformat_time (drop 11 s) of
                  None \<Rightarrow> None
                | Some t \<Rightarrow> Some (d, t)))"

section \<open>Properties of the response parser\<close>

lemma key_eq_JStr [simp]: "key_eq (JStr a) (JStr b) = (a = b)"
  by (simp add: key_eq_def)

lemma dict_setitem_fresh:
  "\<forall>kv\<in>set d. \<not> key_eq (fst kv) k \<Longrightarrow> dict_setitem d k v = d @ [(k, v)]"
  by (induction d) auto

lemma dict_of_pairs_names:
  "distinct ns \<Longrightarrow> length vs = length ns \<Longrightarrow>
   \<forall>kv\<in>set acc. \<forall>n\<in>set ns. \<not> key_eq (fst kv) (JStr n) \<Longrightarrow>
   dict_of_pairs (zip (map JStr ns) vs) acc = Inr (acc @ zip (map JStr ns) vs)"
proof (induction ns arbitrary: vs acc)
  case Nil
  then show ?case by simp
next
  case (Cons n ns)
  then obtain v vs' where vs: "vs = v # vs'" by (cases vs) auto
  have fresh: "dict_setitem acc (JStr n) v = acc @ [(JStr n, v)]"
    using Cons.prems(3) by (intro dict_setitem_fresh) auto
  have "dict_of_pairs (zip (map JStr ns) vs') (acc @ [(JStr n, v)])
        = Inr ((acc @ [(JStr n, v)]) @ zip (map JStr ns) vs')"
    using Cons.prems vs by (intro Cons.IH) auto
  then show ?case using vs fresh by simp
qed

lemma str_names_Some: "str_names cs = Some ns \<Longrightarrow> cs = map JStr ns"
  by (induction cs arbitrary: ns rule: str_names.induct) auto

lemma list_rows_Some: "list_rows rs = Some vss \<Longrightarrow> rs = map JList vss"
  by (induction rs arbitrary: vss rule: list_rows.induct) auto

lemma parse_rows_wf:
  "distinct ns \<Longrightarrow> \<forall>vs\<in>set vss. length vs = length ns \<Longrightarrow>
   parse_rows bn (JList (map JStr ns)) (map JList vss) acc
     = Inr (acc @ map (zip (map JStr ns)) vss)"
proof (induction vss arbitrary: acc)
  case Nil
  then show ?case by simp
next
  case (Cons vs vss)
  have "dict_of_pairs (zip (map JStr ns) vs) [] = Inr (zip (map JStr ns) vs)"
    using dict_of_pairs_names [of ns vs "[]"] Cons.prems by simp
  then show ?case using Cons by simp
qed

lemma update_fresh: "k \<notin> fst ` set al \<Longrightarrow> AList.update k v al = al @ [(k, v)]"
  by (induction al) auto


lemma json_list_Some: "json_list c = Some xs \<Longrightarrow> c = JList xs"
  by (cases c) simp_all

lemma block_field_Some: "block_field k v = Some c \<Longrightarrow> \<exists>b. v = JDict b \<and> map_of b k = Some c"
  by (cases v) simp_all

lemma columns_list_Some:
  "columns_list v = Some cs \<Longrightarrow> \<exists>b. v = JDict b \<and> map_of b ''columns'' = Some (JList cs)"
  unfolding columns_list_def
  by (auto simp: bind_eq_Some_conv dest!: block_field_Some json_list_Some)

lemma data_rows_Some:
  "data_rows v = Some vss \<Longrightarrow>
     \<exists>b. v = JDict b \<and> map_of b ''data'' = Some (JList (map JList vss))"
  unfolding data_rows_def
  by (auto simp: bind_eq_Some_conv dest!: block_field_Some json_list_Some list_rows_Some)

lemma wf_blockE:
  assumes "wf_block v"
  obtains b ns vss where "v = JDict b"
    "map_of b ''columns'' = Some (JList (map JStr ns))"
    "map_of b ''data'' = Some (JList (map JList vss))"
    "distinct ns" "\<forall>vs\<in>set vss. length vs = length ns"
    "block_columns v = map JStr ns" "block_rows v = vss"
proof -
  have lm: "length_matched v" and un: "unique_names v"
    using assms by (simp_all add: wf_block_def)
  from lm obtain cs where c: "columns_list v = Some cs"
    by (cases "columns_list v") (simp_all add: length_matched_def)
  from lm c obtain vss where d: "data_rows v = Some vss"
    by (cases "data_rows v") (simp_all add: length_matched_def)
  from lm c d have len: "\<forall>vs\<in>set vss. length vs = length cs"
    by (simp add: length_matched_def list_all_iff)
  from un c obtain ns where n: "str_names cs = Some ns" and dist: "distinct ns"
    by (cases "str_names cs") (simp_all add: unique_names_def)
  have cs: "cs = map JStr ns" using n by (rule str_names_Some)
  from columns_list_Some [OF c] obtain b where v: "v = JDict b"
    and mc: "map_of b ''columns'' = Some (JList cs)" by blast
  from data_rows_Some [OF d] v have md: "map_of b ''data'' = Some (JList (map JList vss))"
    by simp
  show thesis
  proof (rule that [of b ns vss])
    show "v = JDict b" by (rule v)
    show "map_of b ''columns'' = Some (JList (map JStr ns))" using mc cs by simp
    show "map_of b ''data'' = Some (JList (map JList vss))" by (rule md)
    show "distinct ns" by (rule dist)
    show "\<forall>vs\<in>set vss. length vs = length ns" using len cs by simp
    show "block_columns v = map JStr ns" using c cs by (simp add: block_columns_def)
    show "block_rows v = vss" using d by (simp add: block_rows_def)
  qed
qed

lemma parse_blocks_skip:
  "\<not> is_block v \<Longrightarrow> parse_blocks ((n, v) # rest) acc = parse_blocks rest acc"
  by (cases v) (auto split: option.splits)

lemma parse_blocks_block:
  assumes "wf_block v"
  shows "parse_blocks ((n, v) # rest) acc
           = parse_blocks rest (AList.update n (rows_of_block v) acc)"
proof -
  from assms obtain b ns vss where v: "v = JDict b"
    and c: "map_of b ''columns'' = Some (JList (map JStr ns))"
    and d: "map_of b ''data'' = Some (JList (map JList vss))"
    and dist: "distinct ns" and len: "\<forall>vs\<in>set vss. length vs = length ns"
    and bc: "block_columns v = map JStr ns" and br: "block_rows v = vss"
    by (rule wf_blockE)
  have "parse_rows n (JList (map JStr ns)) (map JList vss) [] = Inr (rows_of_block v)"
    using parse_rows_wf [OF dist len, of n "[]"] bc br by (simp add: rows_of_block_def)
  then show ?thesis using v c d by simp
qed

lemma expected_blocks_Nil: "expected_blocks [] = []"
  by (simp add: expected_blocks_def)

lemma expected_blocks_skip: "\<not> is_block v \<Longrightarrow> expected_blocks ((n, v) # d) = expected_blocks d"
  by (simp add: expected_blocks_def)

lemma expected_blocks_block:
  "is_block v \<Longrightarrow> expected_blocks ((n, v) # d) = (n, rows_of_block v) # expected_blocks d"
  by (simp add: expected_blocks_def)

lemma parse_blocks_step:
  assumes "wf_block v" and "n \<notin> fst ` set acc"
  shows "parse_blocks ((n, v) # d) acc = parse_blocks d (acc @ [(n, rows_of_block v)])"
proof -
  have "parse_blocks ((n, v) # d) acc = parse_blocks d (AList.update n (rows_of_block v) acc)"
    using assms(1) by (rule parse_blocks_block)
  also have "AList.update n (rows_of_block v) acc = acc @ [(n, rows_of_block v)]"
    using assms(2) by (rule update_fresh)
  finally show ?thesis .
qed

lemma parse_blocks_wf:
  "distinct (map fst d) \<Longrightarrow> \<forall>k\<in>fst ` set d. k \<notin> fst ` set acc \<Longrightarrow>
   \<forall>nv\<in>set d. is_block (snd nv) \<longrightarrow> wf_block (snd nv) \<Longrightarrow>
   parse_blocks d acc = Inr (acc @ expected_blocks d)"
proof (induction d arbitrary: acc)
  case Nil
  show ?case by (simp add: expected_blocks_Nil)
next
  case (Cons nv d)
  obtain n v where nv: "nv = (n, v)" by (cases nv)
  have dist: "distinct (map fst d)" using Cons.prems(1) by simp
  have n_d: "n \<notin> fst ` set d" using Cons.prems(1) nv by simp
  have n_acc: "n \<notin> fst ` set acc" using Cons.prems(2) nv by simp
  have d_acc: "\<forall>k\<in>fst ` set d. k \<notin> fst ` set acc" using Cons.prems(2) by simp
  have wfs: "\<forall>nv\<in>set d. is_block (snd nv) \<longrightarrow> wf_block (snd nv)" using Cons.prems(3) by simp
  show ?case
  proof (cases "is_block v")
    case False
    have "parse_blocks ((n, v) # d) acc = parse_blocks d acc"
      using False by (rule parse_blocks_skip)
    also have "\<dots> = Inr (acc @ expected_blocks d)"
      using dist d_acc wfs by (rule Cons.IH)
    also have "expected_blocks d = expected_blocks ((n, v) # d)"
      using expected_blocks_skip [OF False, of n d] by simp
    finally show ?thesis unfolding nv .
  next
    case True
    have wf: "wf_block v" using Cons.prems(3) nv True by simp
    have d_acc': "\<forall>k\<in>fst ` set d. k \<notin> fst ` set (acc @ [(n, rows_of_block v)])"
      using d_acc n_d by auto
    have "parse_blocks ((n, v) # d) acc = parse_blocks d (acc @ [(n, rows_of_block v)])"
      using wf n_acc by (rule parse_blocks_step)
    also have "\<dots> = Inr ((acc @ [(n, rows_of_block v)]) @ expected_blocks d)"
      using dist d_acc' wfs by (rule Cons.IH)
    also have "(acc @ [(n, rows_of_block v)]) @ expected_blocks d
                 = acc @ expected_blocks ((n, v) # d)"
      using expected_blocks_block [OF True, of n d] by simp
    finally show ?thesis unfolding nv .
  qed
qed


lemma parse_json_response_expected:
  assumes "distinct (map fst d)"
    and "\<forall>nv\<in>set d. is_block (snd nv) \<longrightarrow> wf_block (snd nv)"
  shows "parse_json_response (JDict d) = Inr (expected_blocks d)"
proof -
  have "parse_blocks d [] = Inr ([] @ expected_blocks d)"
    using assms by (intro parse_blocks_wf) simp_all
  then show ?thesis by (simp add: parse_json_response_def)
qed

lemma expected_blocks_names:
  "map fst (expected_blocks d) = map fst (filter (\<lambda>nv. is_block (snd nv)) d)"
  by (simp add: expected_blocks_def comp_def)

lemma expected_blocks_lookup:
  assumes "distinct (map fst d)" and "(n, v) \<in> set d"
  shows "map_of (expected_blocks d) n = (if is_block v then Some (rows_of_block v) else None)"
proof (cases "is_block v")
  case True
  have "distinct (map fst (expected_blocks d))"
    unfolding expected_blocks_names using assms(1) by (rule distinct_map_filter)
  moreover have "(n, rows_of_block v) \<in> set (expected_blocks d)"
    using assms(2) True by (force simp: expected_blocks_def)
  ultimately show ?thesis using True by simp
next
  case False
  have "n \<notin> fst ` set (expected_blocks d)"
  proof
    assume "n \<in> fst ` set (expected_blocks d)"
    then obtain v' where v': "(n, v') \<in> set d" "is_block v'"
      by (auto simp: expected_blocks_def)
    from assms(1) v'(1) assms(2) have "v' = v" by (rule eq_key_imp_eq_value)
    with v'(2) False show False by simp
  qed
  then show ?thesis using False by (simp add: map_of_eq_None_iff)
qed

lemma rows_of_block_wf:
  assumes "wf_block v"
  shows "length (rows_of_block v) = length (block_rows v)"
    and "i < length (block_rows v) \<Longrightarrow> dict_keys (rows_of_block v ! i) = block_columns v"
    and "i < length (block_rows v) \<Longrightarrow> dict_values (rows_of_block v ! i) = block_rows v ! i"
proof -
  from assms obtain b ns vss where
    len: "\<forall>vs\<in>set vss. length vs = length ns"
    and bc: "block_columns v = map JStr ns" and br: "block_rows v = vss"
    by (rule wf_blockE)
  show "length (rows_of_block v) = length (block_rows v)"
    by (simp add: rows_of_block_def)
  show "dict_keys (rows_of_block v ! i) = block_columns v" if "i < length (block_rows v)"
  proof -
    have "length (vss ! i) = length ns" using that len br by simp
    then show ?thesis using that bc br by (simp add: rows_of_block_def dict_keys_def)
  qed
  show "dict_values (rows_of_block v ! i) = block_rows v ! i" if "i < length (block_rows v)"
  proof -
    have "length (vss ! i) = length ns" using that len br by simp
    then show ?thesis using that bc br by (simp add: rows_of_block_def dict_values_def)
  qed
qed

lemma py_len_error: "py_len v = Inl e \<Longrightarrow> e = TypeError"
  by (cases v) simp_all

lemma py_iter_error: "py_iter v = Inl e \<Longrightarrow> e = TypeError"
  by (cases v) simp_all

lemma dict_of_pairs_error: "dict_of_pairs ps acc = Inl e \<Longrightarrow> e = TypeError"
  by (induction ps acc rule: dict_of_pairs.induct) (auto split: if_splits)

lemma parse_rows_error:
  "parse_rows bn cols rows acc = Inl e \<Longrightarrow> e = TypeError \<or> is_MoexParsingError e"
proof (induction rows arbitrary: acc)
  case Nil
  then show ?case by simp
next
  case (Cons row rows)
  then show ?case
    by (auto split: sum.splits if_splits dest: py_len_error py_iter_error dict_of_pairs_error)
qed

lemma parse_rows_mismatch:
  "row \<in> set rows \<Longrightarrow> py_len row = Inr k \<Longrightarrow> py_len cols = Inr m \<Longrightarrow> k \<noteq> m \<Longrightarrow>
   \<exists>e. parse_rows bn cols rows acc = Inl e"
proof (induction rows arbitrary: acc)
  case Nil
  then show ?case by simp
next
  case (Cons r rows)
  show ?case
  proof (cases "r = row")
    case True
    then show ?thesis using Cons.prems by simp
  next
    case False
    then have "row \<in> set rows" using Cons.prems(1) by simp
    then have "\<And>acc. \<exists>e. parse_rows bn cols rows acc = Inl e"
      using Cons.prems(2-4) by (rule Cons.IH)
    then show ?thesis by (auto split: sum.splits)
  qed
qed

lemma is_block_fields:
  "is_block v \<Longrightarrow> \<exists>b c dt. v = JDict b \<and> map_of b ''columns'' = Some c \<and> map_of b ''data'' = Some dt"
  by (cases v) auto

lemma parse_blocks_Cons_block:
  "map_of b ''columns'' = Some c \<Longrightarrow> map_of b ''data'' = Some dt \<Longrightarrow>
   parse_blocks ((n, JDict b) # rest) acc =
     (case py_iter dt of
        Inl e \<Rightarrow> Inl e
      | Inr rows \<Rightarrow>
         (case parse_rows n c rows [] of
            Inl e \<Rightarrow> Inl e
          | Inr rs \<Rightarrow> parse_blocks rest (AList.update n rs acc)))"
  by simp

lemma parse_blocks_error:
  "parse_blocks d acc = Inl e \<Longrightarrow> e = TypeError \<or> is_MoexParsingError e"
proof (induction d arbitrary: acc)
  case Nil
  then show ?case by simp
next
  case (Cons nv d)
  obtain n v where nv: "nv = (n, v)" by (cases nv)
  show ?case
  proof (cases "is_block v")
    case False
    then have "parse_blocks d acc = Inl e"
      using Cons.prems nv by (simp add: parse_blocks_skip del: parse_blocks.simps)
    then show ?thesis by (rule Cons.IH)
  next
    case True
    then obtain b c dt where v: "v = JDict b" and c: "map_of b ''columns'' = Some c"
      and dt: "map_of b ''data'' = Some dt"
      using is_block_fields by blast
    note step = parse_blocks_Cons_block [OF c dt, of n d acc]
    show ?thesis
    proof (cases "py_iter dt")
      case (Inl e')
      then have "e = e'" using Cons.prems nv v step by simp
      then show ?thesis using Inl py_iter_error by blast
    next
      case (Inr rows)
      note rows = this
      show ?thesis
      proof (cases "parse_rows n c rows []")
        case (Inl e')
        then have "e = e'" using Cons.prems nv v step rows by simp
        then show ?thesis using Inl parse_rows_error by blast
      next
        case (Inr rs)
        then have "parse_blocks d (AList.update n rs acc) = Inl e"
          using Cons.prems nv v step rows by simp
        then show ?thesis by (rule Cons.IH)
      qed
    qed
  qed
qed

lemma parse_blocks_mismatch:
  assumes "(n, v) \<in> set d"
    and "block_field ''columns'' v = Some cols" and "block_field ''data'' v = Some dt"
    and "py_iter dt = Inr rows" and "row \<in> set rows"
    and "py_len row = Inr k" and "py_len cols = Inr m" and "k \<noteq> m"
  shows "\<exists>e. parse_blocks d acc = Inl e"
  using assms(1)
proof (induction d arbitrary: acc)
  case Nil
  then show ?case by simp
next
  case (Cons nv' d)
  obtain n' v' where nv': "nv' = (n', v')" by (cases nv')
  from assms(2) obtain b where v: "v = JDict b" and c: "map_of b ''columns'' = Some cols"
    using block_field_Some by blast
  from assms(3) v have dt: "map_of b ''data'' = Some dt" by simp
  have here: "\<exists>e. parse_blocks ((n, v) # d) acc = Inl e" for acc
  proof -
    from parse_rows_mismatch [OF assms(5-8)] obtain e where "parse_rows n cols rows [] = Inl e"
      by blast
    then show ?thesis
      unfolding v parse_blocks_Cons_block [OF c dt] using assms(4) by simp
  qed
  show ?case
  proof (cases "nv' = (n, v)")
    case True
    then show ?thesis using here by simp
  next
    case False
    then have "(n, v) \<in> set d" using Cons.prems by simp
    then have later: "\<exists>e. parse_blocks d acc = Inl e" for acc by (rule Cons.IH)
    show ?thesis
    proof (cases "is_block v'")
      case False
      then show ?thesis using later nv' by (simp add: parse_blocks_skip del: parse_blocks.simps)
    next
      case True
      then obtain b' c' dt' where v': "v' = JDict b'" and c': "map_of b' ''columns'' = Some c'"
        and dt': "map_of b' ''data'' = Some dt'"
        using is_block_fields by blast
      show ?thesis
        unfolding nv' v' parse_blocks_Cons_block [OF c' dt']
        using later by (auto split: sum.splits)
    qed
  qed
qed


subsection \<open>Claims about the response parser\<close>

text \<open>
  C1 (as amended). Let the input be a mapping in which every entry that passes the parser's
  block test (a mapping holding both \<^verbatim>\<open>columns\<close> and \<^verbatim>\<open>data\<close>) is a well-formed
  block: \<^verbatim>\<open>columns\<close> is a list of pairwise distinct strings, \<^verbatim>\<open>data\<close> a list of
  rows, and every row a list as long as \<^verbatim>\<open>columns\<close>. Then \<^verbatim>\<open>parse_json_response\<close>
  returns a mapping whose keys are the names of the blocks, in the order of the input; under
  each name it holds exactly \<^verbatim>\<open>len(data)\<close> rows; the keys of the i-th row are the
  block's columns in their order and its values are the values of the i-th source row,
  position by position. Every entry that fails the block test is absent from the result.
\<close>

theorem parse_json_response_wellformed:
  assumes "distinct (map fst d)"
    and "\<forall>nv\<in>set d. is_block (snd nv) \<longrightarrow> wf_block (snd nv)"
  shows "\<exists>res. parse_json_response (JDict d) = Inr res
           \<and> map fst res = map fst (filter (\<lambda>nv. is_block (snd nv)) d)
           \<and> (\<forall>nv\<in>set d. is_block (snd nv) \<longrightarrow>
                 (\<exists>rows. map_of res (fst nv) = Some rows
                    \<and> length rows = length (block_rows (snd nv))
                    \<and> (\<forall>i<length rows.
                          dict_keys (rows ! i) = block_columns (snd nv)
                        \<and> dict_values (rows ! i) = block_rows (snd nv) ! i)))
           \<and> (\<forall>nv\<in>set d. \<not> is_block (snd nv) \<longrightarrow> map_of res (fst nv) = None)"
proof -
  let ?res = "expected_blocks d"
  have run: "parse_json_response (JDict d) = Inr ?res"
    using assms by (rule parse_json_response_expected)
  have names: "map fst ?res = map fst (filter (\<lambda>nv. is_block (snd nv)) d)"
    by (rule expected_blocks_names)
  have blocks: "\<forall>nv\<in>set d. is_block (snd nv) \<longrightarrow>
                 (\<exists>rows. map_of ?res (fst nv) = Some rows
                    \<and> length rows = length (block_rows (snd nv))
                    \<and> (\<forall>i<length rows.
                          dict_keys (rows ! i) = block_columns (snd nv)
                        \<and> dict_values (rows ! i) = block_rows (snd nv) ! i))"
  proof (intro ballI impI)
    fix nv assume nv: "nv \<in> set d" and blk: "is_block (snd nv)"
    have wf: "wf_block (snd nv)" using assms(2) nv blk by simp
    have mem: "(fst nv, snd nv) \<in> set d" using nv by simp
    have look: "map_of ?res (fst nv) = Some (rows_of_block (snd nv))"
      using expected_blocks_lookup [OF assms(1) mem] blk by simp
    show "\<exists>rows. map_of ?res (fst nv) = Some rows
          \<and> length rows = length (block_rows (snd nv))
          \<and> (\<forall>i<length rows.
                dict_keys (rows ! i) = block_columns (snd nv)
              \<and> dict_values (rows ! i) = block_rows (snd nv) ! i)"
      using look rows_of_block_wf [OF wf] by simp
  qed
  have skipped: "\<forall>nv\<in>set d. \<not> is_block (snd nv) \<longrightarrow> map_of ?res (fst nv) = None"
  proof (intro ballI impI)
    fix nv assume nv: "nv \<in> set d" and blk: "\<not> is_block (snd nv)"
    have mem: "(fst nv, snd nv) \<in> set d" using nv by simp
    show "map_of ?res (fst nv) = None"
      using expected_blocks_lookup [OF assms(1) mem] blk by simp
  qed
  show ?thesis
    using run names blocks skipped by (intro exI [of _ ?res] conjI)
qed

theorem parse_json_response_wellformed_witness:
  "distinct (map fst engines_example)
   \<and> list_all (\<lambda>nv. is_block (snd nv) \<longrightarrow> wf_block (snd nv)) engines_example
   \<and> (\<exists>res. parse_json_response (JDict engines_example) = Inr res
          \<and> map fst res = [''engines''])"
proof -
  have h1: "distinct (map fst engines_example)"
    by (simp add: engines_example_def)
  have h2: "\<forall>nv\<in>set engines_example. is_block (snd nv) \<longrightarrow> wf_block (snd nv)"
    by (simp add: engines_example_def wf_block_def length_matched_def unique_names_def
        columns_list_def data_rows_def)
  have flt: "map fst (filter (\<lambda>nv. is_block (snd nv)) engines_example) = [''engines'']"
    by (simp add: engines_example_def)
  from parse_json_response_wellformed [OF h1 h2] obtain res
    where "parse_json_response (JDict engines_example) = Inr res"
      and "map fst res = map fst (filter (\<lambda>nv. is_block (snd nv)) engines_example)"
    by blast
  then have "\<exists>res. parse_json_response (JDict engines_example) = Inr res
          \<and> map fst res = [''engines'']"
    using flt by simp
  then show ?thesis using h1 h2 by (simp add: list_all_iff)
qed

text \<open>
  C1 as it was first stated asks no more of a block than the matching lengths. The block
  below has them, yet its two columns share a name: the parsed row has one key, which is
  not the list of columns, and keeps only the last of the two values.
\<close>

theorem parse_json_response_twin_columns:
  "length_matched twin_columns_block
   \<and> parse_json_response (JDict [(''b'', twin_columns_block)])
       = Inr [(''b'', [[(JStr ''a'', JInt 2)]])]
   \<and> dict_keys [(JStr ''a'', JInt 2)] \<noteq> block_columns twin_columns_block
   \<and> dict_values [(JStr ''a'', JInt 2)] \<noteq> [JInt 1, JInt 2]"
  by (simp add: twin_columns_block_def length_matched_def columns_list_def data_rows_def
      parse_json_response_def block_columns_def dict_keys_def dict_values_def)

text \<open>
  C2. Whenever some entry of the input mapping holds \<^verbatim>\<open>columns\<close> and \<^verbatim>\<open>data\<close>, and
  a row of \<^verbatim>\<open>data\<close> has a length other than that of \<^verbatim>\<open>columns\<close>,
  \<^verbatim>\<open>parse_json_response\<close> raises MoexParsingError: no mapping is returned, whatever the
  other entries and rows are.
\<close>

theorem parse_json_response_mismatch:
  assumes "(n, v) \<in> set d"
    and "block_field ''columns'' v = Some cols" and "block_field ''data'' v = Some dt"
    and "py_iter dt = Inr rows" and "row \<in> set rows"
    and "py_len row = Inr k" and "py_len cols = Inr m" and "k \<noteq> m"
  shows "\<exists>msg orig. parse_json_response (JDict d) = Inl (MoexParsingError msg orig)"
proof -
  from parse_blocks_mismatch [OF assms] obtain e where e: "parse_blocks d [] = Inl e"
    by blast
  then have "e = TypeError \<or> is_MoexParsingError e" by (rule parse_blocks_error)
  then show ?thesis
  proof
    assume "e = TypeError"
    then show ?thesis using e by (simp add: parse_json_response_def)
  next
    assume "is_MoexParsingError e"
    then obtain msg orig where "e = MoexParsingError msg orig" by (cases e) simp_all
    then show ?thesis using e by (simp add: parse_json_response_def)
  qed
qed

theorem parse_json_response_mismatch_witness:
  "\<exists>msg orig. parse_json_response (JDict short_row_example) = Inl (MoexParsingError msg orig)"
proof -
  let ?v = "JDict [(''columns'', JList [JStr ''id'', JStr ''name'']),
               (''data'', JList [JList [JStr ''stock'', JStr ''stock''],
                                 JList [JStr ''currency'']])]"
  have "(''engines'', ?v) \<in> set short_row_example" by (simp add: short_row_example_def)
  moreover have "block_field ''columns'' ?v = Some (JList [JStr ''id'', JStr ''name''])" by simp
  moreover have "block_field ''data'' ?v = Some (JList [JList [JStr ''stock'', JStr ''stock''],
                                 JList [JStr ''currency'']])" by simp
  moreover have "py_iter (JList [JList [JStr ''stock'', JStr ''stock''],
                                 JList [JStr ''currency'']]) = Inr [JList [JStr ''stock'', JStr ''stock''],
                                 JList [JStr ''currency'']]" by simp
  moreover have "JList [JStr ''currency''] \<in> set [JList [JStr ''stock'', JStr ''stock''],
                                 JList [JStr ''currency'']]" by simp
  moreover have "py_len (JList [JStr ''currency'']) = Inr 1" by simp
  moreover have "py_len (JList [JStr ''id'', JStr ''name'']) = Inr 2" by simp
  moreover have "(1::nat) \<noteq> 2" by simp
  ultimately show ?thesis by (rule parse_json_response_mismatch)
qed

text \<open>
  C3. A top-level value that is not a mapping should be reported as MoexParsingError. On a
  list the call of \<^verbatim>\<open>.items()\<close> raises AttributeError, which the handler for
  KeyError and TypeError does not catch: it leaves the function as it is.
\<close>

theorem parse_json_response_list_escapes:
  "parse_json_response (JList [JDict engines_example]) = Inl AttributeError"
  by (simp add: parse_json_response_def)

section \<open>Properties of the column normalizer, the endpoint functions and the client\<close>

text \<open>
  C4. Normalizing with an empty specification changes nothing: with no lists of date,
  numeric or categorical columns (absent, or present and empty) and no index column (absent,
  or the empty name) \<^verbatim>\<open>normalize_dataframe\<close> returns the frame it was given.
\<close>

theorem normalize_dataframe_empty_spec:
  "normalize_dataframe pd df None None None None = df
   \<and> normalize_dataframe pd df (Some []) (Some []) (Some []) None = df
   \<and> normalize_dataframe pd df (Some []) (Some []) (Some []) (Some []) = df"
  by (simp add: normalize_dataframe_def convert_columns_def)

lemma map_of_interval_map_None:
  "name \<notin> set (map fst interval_map) \<Longrightarrow> map_of interval_map name = None"
  by (simp add: map_of_eq_None_iff)

text \<open>
  C6. The interval names map to the codes 1, 1, 10, 60, 24, 7, 31 and 4; a name of the table
  is passed on to \<^verbatim>\<open>get_candles\<close> as its code; every other name makes
  \<^verbatim>\<open>get_stock_candles\<close> raise ValueError, with a message that quotes the name and lists
  the valid names in the order min, 1min, 10min, hour, day, week, month, quarter.
\<close>

theorem get_stock_candles_interval_codes:
  "map_of interval_map ''min'' = Some 1 \<and> map_of interval_map ''1min'' = Some 1
   \<and> map_of interval_map ''10min'' = Some 10 \<and> map_of interval_map ''hour'' = Some 60
   \<and> map_of interval_map ''day'' = Some 24 \<and> map_of interval_map ''week'' = Some 7
   \<and> map_of interval_map ''month'' = Some 31 \<and> map_of interval_map ''quarter'' = Some 4
   \<and> (\<forall>code. map_of interval_map name = Some code \<longrightarrow>
         get_stock_candles gc ticker name sd ed b =
           gc \<lparr>security_id = ticker, engine = ''stock'', market = ''shares'', board = b,
               interval = code, start_date = sd, end_date = ed\<rparr>)
   \<and> (name \<notin> {''min'', ''1min'', ''10min'', ''hour'', ''day'', ''week'', ''month'', ''quarter''} \<longrightarrow>
         get_stock_candles gc ticker name sd ed b =
           Inl (ValueError (''Invalid interval: '' @ [CHR 0x27] @ name @ [CHR 0x27]
                  @ ''. Valid intervals are: min, 1min, 10min, hour, day, week, month, quarter'')))"
proof -
  have codes: "map_of interval_map ''min'' = Some 1 \<and> map_of interval_map ''1min'' = Some 1
   \<and> map_of interval_map ''10min'' = Some 10 \<and> map_of interval_map ''hour'' = Some 60
   \<and> map_of interval_map ''day'' = Some 24 \<and> map_of interval_map ''week'' = Some 7
   \<and> map_of interval_map ''month'' = Some 31 \<and> map_of interval_map ''quarter'' = Some 4"
    by (simp add: interval_map_def)
  have ok: "\<forall>code. map_of interval_map name = Some code \<longrightarrow>
         get_stock_candles gc ticker name sd ed b =
           gc \<lparr>security_id = ticker, engine = ''stock'', market = ''shares'', board = b,
               interval = code, start_date = sd, end_date = ed\<rparr>"
    by (simp add: get_stock_candles_def)
  have names: "map fst interval_map
     = [''min'', ''1min'', ''10min'', ''hour'', ''day'', ''week'', ''month'', ''quarter'']"
    by (simp add: interval_map_def)
  have msg: "join '', '' (map fst interval_map)
     = ''min, 1min, 10min, hour, day, week, month, quarter''"
    unfolding names by simp
  have bad: "name \<notin> {''min'', ''1min'', ''10min'', ''hour'', ''day'', ''week'', ''month'', ''quarter''} \<longrightarrow>
         get_stock_candles gc ticker name sd ed b =
           Inl (ValueError (''Invalid interval: '' @ [CHR 0x27] @ name @ [CHR 0x27]
                  @ ''. Valid intervals are: min, 1min, 10min, hour, day, week, month, quarter''))"
  proof
    assume "name \<notin> {''min'', ''1min'', ''10min'', ''hour'', ''day'', ''week'', ''month'', ''quarter''}"
    then have "name \<notin> set (map fst interval_map)" unfolding names by simp
    then have "map_of interval_map name = None" by (rule map_of_interval_map_None)
    then show "get_stock_candles gc ticker name sd ed b =
           Inl (ValueError (''Invalid interval: '' @ [CHR 0x27] @ name @ [CHR 0x27]
                  @ ''. Valid intervals are: min, 1min, 10min, hour, day, week, month, quarter''))"
      by (simp add: get_stock_candles_def invalid_interval_message_def msg)
  qed
  show ?thesis using codes ok bad by blast
qed

theorem get_stock_candles_interval_codes_witness:
  "get_stock_candles (\<lambda>r. Inr (interval r)) ''SBER'' ''week'' (None :: unit option) None ''TQBR''
     = Inr 7
   \<and> get_stock_candles (\<lambda>r. Inr (interval r)) ''SBER'' ''biweekly'' (None :: unit option) None ''TQBR''
     = Inl (ValueError (''Invalid interval: '' @ [CHR 0x27] @ ''biweekly'' @ [CHR 0x27]
              @ ''. Valid intervals are: min, 1min, 10min, hour, day, week, month, quarter''))"
proof -
  have a: "map_of interval_map ''week'' = Some 7" by (simp add: interval_map_def)
  have b: "''biweekly'' \<notin> {''min'', ''1min'', ''10min'', ''hour'', ''day'', ''week'', ''month'', ''quarter''}"
    by simp
  from get_stock_candles_interval_codes
    [of "''week''" "\<lambda>r. Inr (interval r)" "''SBER''" "None :: unit option" None "''TQBR''"] a
  have w: "get_stock_candles (\<lambda>r. Inr (interval r)) ''SBER'' ''week'' (None :: unit option) None ''TQBR''
     = Inr 7" by simp
  from get_stock_candles_interval_codes
    [of "''biweekly''" "\<lambda>r. Inr (interval r)" "''SBER''" "None :: unit option" None "''TQBR''"] b
  have bw: "get_stock_candles (\<lambda>r. Inr (interval r)) ''SBER'' ''biweekly'' (None :: unit option) None ''TQBR''
     = Inl (ValueError (''Invalid interval: '' @ [CHR 0x27] @ ''biweekly'' @ [CHR 0x27]
              @ ''. Valid intervals are: min, 1min, 10min, hour, day, week, month, quarter''))"
    by blast
  show ?thesis using w bw by (rule conjI)
qed




section \<open>Properties of the request executor and the batch function\<close>

text \<open>
  The status checks of \<^verbatim>\<open>_make_request\<close> in one equation, and what the executor does
  with a failure of the transport and with a response.
\<close>

lemma check_status_mapping:
  "check_status mx r =
     (if status_code r = 429 then
        (case py_int mx (headers_get (headers r) ''Retry-After'' ''60'') of
           Inr n \<Rightarrow> Inl (MoexRateLimitError ''Rate limit exceeded'' (Some 429) (Some n))
         | Inl e \<Rightarrow> Inl e)
      else if status_code r \<in> {401, 403} then
        Inl (MoexAuthError ''Authentication failed'' (Some (status_code r)))
      else if 400 \<le> status_code r then
        Inl (MoexResponseError (''API returned error response: '' @ str_int (status_code r))
               (Some (status_code r)))
      else Inr r)"
  by (simp add: check_status_def split: sum.splits)

lemma py_int_60: "py_int mx ''60'' = Inr 60"
  by (simp add: py_int_def is_space_def is_digit_def digit_val_def run_value_def over_limit_def
      Let_def split: option.splits)

lemma check_status_429_default:
  "status_code r = 429 \<Longrightarrow> headers r = [] \<Longrightarrow>
   check_status mx r = Inl (MoexRateLimitError ''Rate limit exceeded'' (Some 429) (Some 60))"
  by (simp add: check_status_def headers_get_def py_int_60)

lemma make_request_transport_failure:
  "map upper_char method = ''GET'' \<Longrightarrow> session_get req = Inl (RequestException msg) \<Longrightarrow>
   fst (make_request mx fsub session_get session_post req method t0 t1 self)
     = Inl (MoexConnectionError ''Failed to connect to MOEX API'' (Some (RequestException msg)))"
  by (simp add: make_request_def Let_def)

lemma make_request_response:
  "map upper_char method = ''GET'' \<Longrightarrow> session_get req = Inr resp \<Longrightarrow>
   fst (make_request mx fsub session_get session_post req method t0 t1 self) = check_status mx resp"
  by (simp add: make_request_def Let_def)

lemma py_repr_http_date:
  "py_repr ''Wed, 21 Oct 2015 07:28:00 GMT'' = [CHR 0x27] @ ''Wed, 21 Oct 2015 07:28:00 GMT'' @ [CHR 0x27]"
  by (simp add: py_repr_def repr_char_def printable_def Let_def)

lemma py_int_http_date:
  "py_int mx ''Wed, 21 Oct 2015 07:28:00 GMT'' = Inl (invalid_literal ''Wed, 21 Oct 2015 07:28:00 GMT'')"
  by (simp add: py_int_def is_space_def is_digit_def over_limit_def Let_def split: option.splits)

text \<open>
  C7. Status 429 is to give MoexRateLimitError. The header \<^verbatim>\<open>Retry-After\<close> may hold an
  HTTP date instead of a number of seconds; \<^verbatim>\<open>int\<close> then raises ValueError before the
  rate-limit error is built, and the handler for the transport's exceptions lets it pass:
  the caller gets a ValueError, which is no MoexApiError. This is so with the limit on the
  digits of an integer literal (4300) and without it.
\<close>

theorem make_request_retry_after_date:
  "check_status (Some 4300) retry_date_response
     = Inl (invalid_literal ''Wed, 21 Oct 2015 07:28:00 GMT'')
   \<and> check_status None retry_date_response
     = Inl (invalid_literal ''Wed, 21 Oct 2015 07:28:00 GMT'')
   \<and> fst (make_request (Some 4300) (\<lambda>a b. a - b)
            (\<lambda>q. Inr retry_date_response) (\<lambda>q. Inr retry_date_response) () ''GET'' 1 2
            (client_init () None None (Some 30)))
     = Inl (invalid_literal ''Wed, 21 Oct 2015 07:28:00 GMT'')
   \<and> invalid_literal ''Wed, 21 Oct 2015 07:28:00 GMT''
     = ValueError (''invalid literal for int() with base 10: '' @ [CHR 0x27]
                    @ ''Wed, 21 Oct 2015 07:28:00 GMT'' @ [CHR 0x27])
   \<and> \<not> is_MoexApiError (invalid_literal ''Wed, 21 Oct 2015 07:28:00 GMT'')"
proof -
  have h: "headers_get (headers retry_date_response) ''Retry-After'' ''60''
             = ''Wed, 21 Oct 2015 07:28:00 GMT''"
    by (simp add: retry_date_response_def headers_get_def lower_char_def)
  have c: "check_status mx retry_date_response
             = Inl (invalid_literal ''Wed, 21 Oct 2015 07:28:00 GMT'')" for mx
    unfolding check_status_def h py_int_http_date by (simp add: retry_date_response_def)
  have u: "map upper_char ''GET'' = ''GET''" by (simp add: upper_char_def)
  have m: "fst (make_request (Some 4300) (\<lambda>a b. a - b)
            (\<lambda>q. Inr retry_date_response) (\<lambda>q. Inr retry_date_response) () ''GET'' 1 2
            (client_init () None None (Some 30))) = check_status (Some 4300) retry_date_response"
    using u by (simp add: make_request_def Let_def)
  have l: "invalid_literal ''Wed, 21 Oct 2015 07:28:00 GMT''
     = ValueError (''invalid literal for int() with base 10: '' @ [CHR 0x27]
                    @ ''Wed, 21 Oct 2015 07:28:00 GMT'' @ [CHR 0x27])"
    unfolding invalid_literal_def py_repr_http_date by simp
  have n: "\<not> is_MoexApiError (invalid_literal ''Wed, 21 Oct 2015 07:28:00 GMT'')"
    by (simp add: invalid_literal_def)
  show ?thesis using c m l n by simp
qed




section \<open>Properties of the date functions\<close>

subsection \<open>Digits, and dates read back from the formats\<close>

lemma of_char_digit_char: "k < 10 \<Longrightarrow> (of_char (digit_char k) :: nat) = 48 + k"
  by (simp add: digit_char_def)

lemma is_digit_digit_char [simp]: "k < 10 \<Longrightarrow> is_digit (digit_char k)"
  by (simp add: is_digit_def of_char_digit_char)

lemma digit_val_digit_char [simp]: "k < 10 \<Longrightarrow> digit_val (digit_char k) = k"
  by (simp add: digit_val_def of_char_digit_char)

lemma in_range_digit_char:
  "k < 10 \<Longrightarrow> in_range lo hi (digit_char k) = ((of_char lo :: nat) \<le> 48 + k \<and> 48 + k \<le> (of_char hi :: nat))"
  by (simp add: in_range_def of_char_digit_char)

lemma digit_char_eq_iff: "k < 10 \<Longrightarrow> (digit_char k = c) = ((of_char c :: nat) = 48 + k)"
proof
  assume "k < 10" "digit_char k = c"
  then show "(of_char c :: nat) = 48 + k" using of_char_digit_char by blast
next
  assume k: "k < 10" and "(of_char c :: nat) = 48 + k"
  then have "char_of (of_char c :: nat) = char_of (48 + k)" by simp
  then show "digit_char k = c" by (simp add: digit_char_def)
qed

lemma digit_char_neq_lit [simp]:
  "k < 10 \<Longrightarrow> digit_char k \<noteq> CHR ''-''" "k < 10 \<Longrightarrow> digit_char k \<noteq> CHR ''.''"
  "k < 10 \<Longrightarrow> digit_char k \<noteq> CHR ''/''" "k < 10 \<Longrightarrow> digit_char k \<noteq> CHR '' ''"
  by (simp_all add: digit_char_eq_iff)

lemma lit_neq_digit_char [simp]:
  "k < 10 \<Longrightarrow> CHR ''-'' \<noteq> digit_char k" "k < 10 \<Longrightarrow> CHR ''.'' \<noteq> digit_char k"
  "k < 10 \<Longrightarrow> CHR ''/'' \<noteq> digit_char k" "k < 10 \<Longrightarrow> CHR '' '' \<noteq> digit_char k"
  by (simp_all add: digit_char_eq_iff eq_commute [of _ "digit_char k"])

lemma year_alts_pad4:
  assumes "y \<le> 9999"
  shows "year_alts (pad4 y @ rest) = [(y, rest)]"
proof -
  have a: "y = 10 * (y div 10) + y mod 10" by simp
  have b1: "y div 10 div 10 = y div 100" and c1: "y div 100 div 10 = y div 1000"
    by (simp_all add: div_mult2_eq [symmetric])
  have b: "y div 10 = 10 * (y div 100) + y div 10 mod 10"
    using mult_div_mod_eq [of 10 "y div 10"] unfolding b1 by linarith
  have c: "y div 100 = 10 * (y div 1000) + y div 100 mod 10"
    using mult_div_mod_eq [of 10 "y div 100"] unfolding c1 by linarith
  have d: "y div 1000 mod 10 = y div 1000" using assms by simp
  have "1000 * (y div 1000 mod 10) + 100 * (y div 100 mod 10) + 10 * (y div 10 mod 10) + y mod 10 = y"
    using a b c d by linarith
  moreover have "y div 1000 < 10" using assms by simp
  ultimately show ?thesis using d by (simp add: year_alts_def pad4_def)
qed

lemma month_alts_pad2:
  assumes "1 \<le> m" "m \<le> 12"
  shows "\<exists>alts. month_alts (pad2 m @ rest) = (m, rest) # alts"
proof (cases "m < 10")
  case True
  then have "m div 10 mod 10 = 0" "m mod 10 = m" by simp_all
  then show ?thesis using assms True
    by (simp add: month_alts_def pad2_def two_char_def one_char_def in_range_digit_char digit_char_eq_iff)
next
  case False
  then have m: "m = 10 \<or> m = 11 \<or> m = 12" using assms by linarith
  then have "m div 10 mod 10 = 1" "m mod 10 = m - 10" "m mod 10 < 3" by auto
  then show ?thesis using assms False
    by (simp add: month_alts_def pad2_def two_char_def one_char_def in_range_digit_char digit_char_eq_iff)
qed


lemma day_alts_pad2:
  assumes "1 \<le> n" "n \<le> 31"
  shows "\<exists>alts. day_alts (pad2 n @ rest) = (n, rest) # alts"
proof -
  consider "n < 10" | "10 \<le> n \<and> n < 20" | "20 \<le> n \<and> n < 30" | "30 \<le> n" by linarith
  then show ?thesis
  proof cases
    case 1
    then have "n div 10 mod 10 = 0" "n mod 10 = n" by simp_all
    then show ?thesis using assms 1
      by (simp add: day_alts_def pad2_def two_char_def one_char_def space_digit_def
          in_range_digit_char digit_char_eq_iff)
  next
    case 2
    then have "n div 10 = 1" by linarith
    then have "n div 10 mod 10 = 1" "n mod 10 < 10" by simp_all
    moreover have "10 + n mod 10 = n" using mult_div_mod_eq [of 10 n] \<open>n div 10 = 1\<close> by simp
    ultimately show ?thesis
      by (simp add: day_alts_def pad2_def two_char_def one_char_def space_digit_def
          in_range_digit_char digit_char_eq_iff)
  next
    case 3
    then have "n div 10 = 2" by linarith
    then have "n div 10 mod 10 = 2" "n mod 10 < 10" by simp_all
    moreover have "20 + n mod 10 = n" using mult_div_mod_eq [of 10 n] \<open>n div 10 = 2\<close> by simp
    ultimately show ?thesis
      by (simp add: day_alts_def pad2_def two_char_def one_char_def space_digit_def
          in_range_digit_char digit_char_eq_iff)
  next
    case 4
    then have "n div 10 = 3" using assms by linarith
    then have "n div 10 mod 10 = 3" by simp
    moreover have e: "30 + n mod 10 = n" using mult_div_mod_eq [of 10 n] \<open>n div 10 = 3\<close> by simp
    moreover have "n mod 10 < 2" using e assms by linarith
    ultimately show ?thesis
      by (simp add: day_alts_def pad2_def two_char_def one_char_def space_digit_def
          in_range_digit_char digit_char_eq_iff)
  qed
qed

lemma regex_alts_first:
  "regex_match fs rest (set_field f n d) = Some r \<Longrightarrow> regex_alts f fs ((n, rest) # alts) d = Some r"
  by simp

lemma set_field_simps [simp]:
  "set_field FmtY n d = d\<lparr>year := n\<rparr>"
  "set_field Fmtm n d = d\<lparr>month := n\<rparr>"
  "set_field Fmtd n d = d\<lparr>day := n\<rparr>"
  by (simp_all add: set_field_def)


lemma valid_date_ranges:
  assumes "valid_date d"
  shows "year d \<le> 9999" "1 \<le> month d" "month d \<le> 12" "1 \<le> day d" "day d \<le> 31"
proof -
  show "year d \<le> 9999" "1 \<le> month d" "month d \<le> 12" "1 \<le> day d"
    using assms by (simp_all add: valid_date_def)
  have "days_in_month (year d) (month d) \<le> 31" by (simp add: days_in_month_def)
  then show "day d \<le> 31" using assms by (simp add: valid_date_def)
qed

lemma regex_match_Ymd:
  assumes "valid_date d"
  shows "regex_match [FmtY, Lit a, Fmtm, Lit b, Fmtd]
           (pad4 (year d) @ a # pad2 (month d) @ b # pad2 (day d) @ rest) d0
         = Some (d, rest)"
proof -
  note r = valid_date_ranges [OF assms]
  obtain ma where ma: "month_alts (pad2 (month d) @ b # pad2 (day d) @ rest)
                         = (month d, b # pad2 (day d) @ rest) # ma"
    using month_alts_pad2 [OF r(2,3)] by blast
  obtain da where da: "day_alts (pad2 (day d) @ rest) = (day d, rest) # da"
    using day_alts_pad2 [OF r(4,5)] by blast
  show ?thesis by (simp add: year_alts_pad4 [OF r(1)] ma da)
qed

lemma regex_match_dmY:
  assumes "valid_date d"
  shows "regex_match [Fmtd, Lit a, Fmtm, Lit b, FmtY]
           (pad2 (day d) @ a # pad2 (month d) @ b # pad4 (year d) @ rest) d0
         = Some (d, rest)"
proof -
  note r = valid_date_ranges [OF assms]
  obtain da where da: "day_alts (pad2 (day d) @ a # pad2 (month d) @ b # pad4 (year d) @ rest)
                         = (day d, a # pad2 (month d) @ b # pad4 (year d) @ rest) # da"
    using day_alts_pad2 [OF r(4,5)] by blast
  obtain ma where ma: "month_alts (pad2 (month d) @ b # pad4 (year d) @ rest)
                         = (month d, b # pad4 (year d) @ rest) # ma"
    using month_alts_pad2 [OF r(2,3)] by blast
  show ?thesis by (simp add: year_alts_pad4 [OF r(1)] ma da)
qed

lemma regex_match_mdY:
  assumes "valid_date d"
  shows "regex_match [Fmtm, Lit a, Fmtd, Lit b, FmtY]
           (pad2 (month d) @ a # pad2 (day d) @ b # pad4 (year d) @ rest) d0
         = Some (d, rest)"
proof -
  note r = valid_date_ranges [OF assms]
  obtain ma where ma: "month_alts (pad2 (month d) @ a # pad2 (day d) @ b # pad4 (year d) @ rest)
                         = (month d, a # pad2 (day d) @ b # pad4 (year d) @ rest) # ma"
    using month_alts_pad2 [OF r(2,3)] by blast
  obtain da where da: "day_alts (pad2 (day d) @ b # pad4 (year d) @ rest)
                         = (day d, b # pad4 (year d) @ rest) # da"
    using day_alts_pad2 [OF r(4,5)] by blast
  show ?thesis by (simp add: year_alts_pad4 [OF r(1)] ma da)
qed

lemma strptime_render:
  assumes "valid_date d" and "fmt \<in> set common_formats"
  shows "strptime (render fmt d) fmt = Inr d"
proof -
  consider "fmt = fmt_ymd_dash" | "fmt = fmt_dmy_dot" | "fmt = fmt_mdy_slash" | "fmt = fmt_ymd_slash"
    using assms(2) by (auto simp: common_formats_def)
  then show ?thesis
  proof cases
    case 1
    show ?thesis unfolding 1 strptime_def fmt_ymd_dash_def
      using regex_match_Ymd [OF assms(1), of "CHR ''-''" "CHR ''-''" "[]" date_1900] assms(1)
      by simp
  next
    case 2
    show ?thesis unfolding 2 strptime_def fmt_dmy_dot_def
      using regex_match_dmY [OF assms(1), of "CHR ''.''" "CHR ''.''" "[]" date_1900] assms(1)
      by simp
  next
    case 3
    show ?thesis unfolding 3 strptime_def fmt_mdy_slash_def
      using regex_match_mdY [OF assms(1), of "CHR ''/''" "CHR ''/''" "[]" date_1900] assms(1)
      by simp
  next
    case 4
    show ?thesis unfolding 4 strptime_def fmt_ymd_slash_def
      using regex_match_Ymd [OF assms(1), of "CHR ''/''" "CHR ''/''" "[]" date_1900] assms(1)
      by simp
  qed
qed

lemma str_nat_digit: "n < 10 \<Longrightarrow> str_nat n = [digit_char n]"
  by (subst str_nat.simps) simp

lemma str_nat_step: "10 \<le> n \<Longrightarrow> str_nat n = str_nat (n div 10) @ [digit_char (n mod 10)]"
  by (subst str_nat.simps) simp

lemma str_nat_four_digits:
  assumes "1000 \<le> y" "y \<le> 9999"
  shows "str_nat y = pad4 y"
proof -
  have a: "10 \<le> y" "10 \<le> y div 10" "10 \<le> y div 100" "y div 1000 < 10"
    using assms by simp_all
  have b: "y div 10 div 10 = y div 100" "y div 100 div 10 = y div 1000"
    by (simp_all add: div_mult2_eq [symmetric])
  have "str_nat y = str_nat (y div 10) @ [digit_char (y mod 10)]"
    using a(1) by (rule str_nat_step)
  also have "str_nat (y div 10) = str_nat (y div 100) @ [digit_char (y div 10 mod 10)]"
    using str_nat_step [OF a(2)] b(1) by simp
  also have "str_nat (y div 100) = str_nat (y div 1000) @ [digit_char (y div 100 mod 10)]"
    using str_nat_step [OF a(3)] b(2) by simp
  also have "str_nat (y div 1000) = [digit_char (y div 1000)]"
    using a(4) by (rule str_nat_digit)
  finally show ?thesis using a(4) by (simp add: pad4_def)
qed

text \<open>The year is written on four digits: the platform pads, or it has no need to.\<close>

lemma strftime_ymd_render:
  "padded \<or> 1000 \<le> year d \<Longrightarrow> year d \<le> 9999 \<Longrightarrow> strftime_ymd padded d = render fmt_ymd_dash d"
  by (auto simp: strftime_ymd_def fmt_ymd_dash_def str_nat_four_digits)

lemma strptime_strftime:
  assumes "valid_date d" and "padded \<or> 1000 \<le> year d"
  shows "strptime (strftime_ymd padded d) fmt_ymd_dash = Inr d"
proof -
  have "strftime_ymd padded d = render fmt_ymd_dash d"
    using assms(2) valid_date_ranges(1) [OF assms(1)] by (rule strftime_ymd_render)
  moreover have "strptime (render fmt_ymd_dash d) fmt_ymd_dash = Inr d"
    using assms(1) by (rule strptime_render) (simp add: common_formats_def)
  ultimately show ?thesis by simp
qed

subsection \<open>The loop over the formats\<close>

lemma regex_alts_none:
  "\<forall>nr\<in>set alts. regex_match fs (snd nr) (set_field f (fst nr) d) = None \<Longrightarrow>
   regex_alts f fs alts d = None"
  by (induction alts) auto

lemma regex_match_lit_none:
  "(case s of [] \<Rightarrow> True | x # _ \<Rightarrow> x \<noteq> c) \<Longrightarrow> regex_match (Lit c # fs) s d = None"
  by (cases s) simp_all

lemma two_char_rest: "nr \<in> set (two_char p q (a # b # rest)) \<Longrightarrow> snd nr = rest"
  by (auto simp: two_char_def split: if_splits)

lemma one_char_rest: "nr \<in> set (one_char p (a # rest)) \<Longrightarrow> snd nr = rest"
  by (auto simp: one_char_def split: if_splits)

lemma space_digit_rest: "nr \<in> set (space_digit (a # b # rest)) \<Longrightarrow> snd nr = rest"
  by (auto simp: space_digit_def split: if_splits)

lemma month_alts_rest:
  "nr \<in> set (month_alts (a # b # rest)) \<Longrightarrow> snd nr = rest \<or> snd nr = b # rest"
  by (auto simp: month_alts_def dest: two_char_rest one_char_rest)

lemma day_alts_rest:
  "nr \<in> set (day_alts (a # b # rest)) \<Longrightarrow> snd nr = rest \<or> snd nr = b # rest"
  by (auto simp: day_alts_def dest: two_char_rest one_char_rest space_digit_rest)

text \<open>A directive for the month or the day, then a literal that is neither of the two
  characters that may follow it.\<close>

lemma regex_alts_month_lit_none:
  assumes "b \<noteq> c" "x \<noteq> c"
  shows "regex_alts Fmtm (Lit c # fs) (month_alts (a # b # x # rest)) d = None"
proof (rule regex_alts_none, rule ballI)
  fix nr assume "nr \<in> set (month_alts (a # b # x # rest))"
  then have "snd nr = x # rest \<or> snd nr = b # x # rest" by (rule month_alts_rest)
  then show "regex_match (Lit c # fs) (snd nr) (set_field Fmtm (fst nr) d) = None"
    using assms by auto
qed

lemma regex_alts_day_lit_none:
  assumes "b \<noteq> c" "x \<noteq> c"
  shows "regex_alts Fmtd (Lit c # fs) (day_alts (a # b # x # rest)) d = None"
proof (rule regex_alts_none, rule ballI)
  fix nr assume "nr \<in> set (day_alts (a # b # x # rest))"
  then have "snd nr = x # rest \<or> snd nr = b # x # rest" by (rule day_alts_rest)
  then show "regex_match (Lit c # fs) (snd nr) (set_field Fmtd (fst nr) d) = None"
    using assms by auto
qed

lemma not_digit_lits [simp]:
  "\<not> is_digit CHR ''-''" "\<not> is_digit CHR ''.''" "\<not> is_digit CHR ''/''"
  by (simp_all add: is_digit_def)

lemma pad2_Cons: "pad2 n @ rest = digit_char (n div 10 mod 10) # digit_char (n mod 10) # rest"
  by (simp add: pad2_def)

lemma pad4_Cons:
  "pad4 n @ rest = digit_char (n div 1000 mod 10) # digit_char (n div 100 mod 10)
                     # digit_char (n div 10 mod 10) # digit_char (n mod 10) # rest"
  by (simp add: pad4_def)

text \<open>Each format refuses a date written in a later format of the loop.\<close>

lemma regex_ymd_dash_rejects:
  "regex_match fmt_ymd_dash (render fmt_dmy_dot d) d0 = None"
  "regex_match fmt_ymd_dash (render fmt_mdy_slash d) d0 = None"
  "regex_match fmt_ymd_dash (render fmt_ymd_slash d) d0 = None"
proof -
  show "regex_match fmt_ymd_dash (render fmt_dmy_dot d) d0 = None"
    by (simp add: fmt_ymd_dash_def fmt_dmy_dot_def pad2_Cons year_alts_def)
  show "regex_match fmt_ymd_dash (render fmt_mdy_slash d) d0 = None"
    by (simp add: fmt_ymd_dash_def fmt_mdy_slash_def pad2_Cons year_alts_def)
  show "regex_match fmt_ymd_dash (render fmt_ymd_slash d) d0 = None"
    by (simp add: fmt_ymd_dash_def fmt_ymd_slash_def pad4_Cons year_alts_def)
qed

lemma regex_dmy_dot_rejects:
  "regex_match fmt_dmy_dot (render fmt_mdy_slash d) d0 = None"
  "regex_match fmt_dmy_dot (render fmt_ymd_slash d) d0 = None"
proof -
  show "regex_match fmt_dmy_dot (render fmt_mdy_slash d) d0 = None"
    by (simp add: fmt_dmy_dot_def fmt_mdy_slash_def pad2_Cons
        regex_alts_day_lit_none del: regex_match.simps(2))
  show "regex_match fmt_dmy_dot (render fmt_ymd_slash d) d0 = None"
    by (simp add: fmt_dmy_dot_def fmt_ymd_slash_def pad4_Cons
        regex_alts_day_lit_none del: regex_match.simps(2))
qed

lemma regex_mdy_slash_rejects:
  "regex_match fmt_mdy_slash (render fmt_ymd_slash d) d0 = None"
  by (simp add: fmt_mdy_slash_def fmt_ymd_slash_def pad4_Cons
      regex_alts_month_lit_none del: regex_match.simps(2))

lemma strptime_no_match:
  "regex_match fmt s date_1900 = None \<Longrightarrow> strptime s fmt = Inl (no_match_error s fmt)"
  by (simp add: strptime_def)

lemma try_formats_skip:
  "regex_match fmt s date_1900 = None \<Longrightarrow> try_formats s (fmt # fmts) = try_formats s fmts"
  by (simp add: strptime_no_match)

lemma try_formats_hit: "strptime s fmt = Inr d \<Longrightarrow> try_formats s (fmt # fmts) = Some d"
  by simp

lemma try_formats_render:
  assumes "valid_date d" and "fmt \<in> set common_formats"
  shows "try_formats (render fmt d) common_formats = Some d"
proof -
  note ok = strptime_render [OF assms(1)]
  consider "fmt = fmt_ymd_dash" | "fmt = fmt_dmy_dot" | "fmt = fmt_mdy_slash" | "fmt = fmt_ymd_slash"
    using assms(2) by (auto simp: common_formats_def)
  then show ?thesis
  proof cases
    case 1
    have "strptime (render fmt_ymd_dash d) fmt_ymd_dash = Inr d"
      by (rule ok) (simp add: common_formats_def)
    then show ?thesis unfolding 1 common_formats_def by (rule try_formats_hit)
  next
    case 2
    have "strptime (render fmt_dmy_dot d) fmt_dmy_dot = Inr d"
      by (rule ok) (simp add: common_formats_def)
    then show ?thesis unfolding 2 common_formats_def
      by (simp only: try_formats_skip [OF regex_ymd_dash_rejects(1)] try_formats_hit)
  next
    case 3
    have "strptime (render fmt_mdy_slash d) fmt_mdy_slash = Inr d"
      by (rule ok) (simp add: common_formats_def)
    then show ?thesis unfolding 3 common_formats_def
      by (simp only: try_formats_skip [OF regex_ymd_dash_rejects(2)]
          try_formats_skip [OF regex_dmy_dot_rejects(1)] try_formats_hit)
  next
    case 4
    have "strptime (render fmt_ymd_slash d) fmt_ymd_slash = Inr d"
      by (rule ok) (simp add: common_formats_def)
    then show ?thesis unfolding 4 common_formats_def
      by (simp only: try_formats_skip [OF regex_ymd_dash_rejects(3)]
          try_formats_skip [OF regex_dmy_dot_rejects(2)]
          try_formats_skip [OF regex_mdy_slash_rejects] try_formats_hit)
  qed
qed

subsection \<open>\<^verbatim>\<open>format_date\<close> and \<^verbatim>\<open>validate_date_range\<close>\<close>

lemma digit_char_table:
  "digit_char 0 = CHR ''0''" "digit_char (Suc 0) = CHR ''1''" "digit_char 2 = CHR ''2''"
  "digit_char 3 = CHR ''3''" "digit_char 4 = CHR ''4''" "digit_char 5 = CHR ''5''"
  "digit_char 6 = CHR ''6''" "digit_char 7 = CHR ''7''" "digit_char 8 = CHR ''8''"
  "digit_char 9 = CHR ''9''"
  by (simp_all add: digit_char_eq_iff)

lemma is_ymd_string_strftime:
  assumes "padded \<or> 1000 \<le> year d" and "year d \<le> 9999"
  shows "is_ymd_string (strftime_ymd padded d)"
  unfolding strftime_ymd_render [OF assms]
  by (simp add: is_ymd_string_def fmt_ymd_dash_def pad4_def pad2_def)

lemma format_date_objects:
  "format_date padded parse_iso (DDate d) = Inr (strftime_ymd padded d)"
  "format_date padded parse_iso (DDateTime d t) = Inr (strftime_ymd padded d)"
  by (simp_all add: format_date_def date_obj_def)

lemma format_date_iso:
  "parse_iso s = Some (d, t) \<Longrightarrow> format_date padded parse_iso (DStr s) = Inr (strftime_ymd padded d)"
  by (simp add: format_date_def date_obj_def)

lemma date_obj_render:
  assumes "valid_date d" and "fmt \<in> set common_formats"
    and "parse_iso (render fmt d) = None \<or> (\<exists>t. parse_iso (render fmt d) = Some (d, t))"
  shows "date_obj parse_iso (DStr (render fmt d)) = Inr d"
  using assms(3)
proof
  assume "parse_iso (render fmt d) = None"
  then show ?thesis using try_formats_render [OF assms(1,2)] by (simp add: date_obj_def)
next
  assume "\<exists>t. parse_iso (render fmt d) = Some (d, t)"
  then show ?thesis by (auto simp: date_obj_def)
qed

lemma validate_date_range_steps:
  assumes "date_obj parse_iso (case end_arg of None \<Rightarrow> DDate today | Some e \<Rightarrow> e) = Inr de"
    and "date_obj parse_iso start = Inr ds" and "valid_date ds" and "valid_date de"
    and "padded \<or> (1000 \<le> year ds \<and> 1000 \<le> year de)"
  shows "validate_date_range padded parse_iso today (Some start) end_arg mx =
     (if date_less de ds
      then Inl (ValueError (start_after_end_message (strftime_ymd padded ds) (strftime_ymd padded de)))
      else (case mx of
              None \<Rightarrow> Inr (strftime_ymd padded ds, strftime_ymd padded de)
            | Some m \<Rightarrow>
                if int (toordinal de) - int (toordinal ds) > m
                then Inl (ValueError (interval_exceeded_message m
                       (int (toordinal de) - int (toordinal ds))
                       (strftime_ymd padded ds) (strftime_ymd padded de)))
                else Inr (strftime_ymd padded ds, strftime_ymd padded de)))"
proof -
  have s: "strptime (strftime_ymd padded ds) fmt_ymd_dash = Inr ds"
    using assms(3,5) by (intro strptime_strftime) auto
  have e: "strptime (strftime_ymd padded de) fmt_ymd_dash = Inr de"
    using assms(4,5) by (intro strptime_strftime) auto
  show ?thesis
    using assms(1,2)
    by (simp add: validate_date_range_def format_date_def s e Let_def split: option.splits)
qed

lemma validate_date_range_rejects:
  assumes "date_obj parse_iso (case end_arg of None \<Rightarrow> DDate today | Some e \<Rightarrow> e) = Inr de"
    and "date_obj parse_iso start = Inr ds" and "valid_date ds" and "valid_date de"
    and "padded \<or> (1000 \<le> year ds \<and> 1000 \<le> year de)"
  shows "(date_less de ds \<longrightarrow>
            validate_date_range padded parse_iso today (Some start) end_arg mx
              = Inl (ValueError (''Start date ('' @ strftime_ymd padded ds
                       @ '') is after end date ('' @ strftime_ymd padded de @ '')'')))
       \<and> (\<not> date_less de ds \<and> mx = Some m \<and> m < int (toordinal de) - int (toordinal ds) \<longrightarrow>
            validate_date_range padded parse_iso today (Some start) end_arg mx
              = Inl (ValueError (''Date range exceeds maximum interval of '' @ str_int m
                       @ '' days. Requested: '' @ str_int (int (toordinal de) - int (toordinal ds))
                       @ '' days ('' @ strftime_ymd padded ds @ '' to ''
                       @ strftime_ymd padded de @ '')'')))"
  unfolding validate_date_range_steps [OF assms]
  by (simp add: start_after_end_message_def interval_exceeded_message_def)

text \<open>Evaluation at the dates of the examples.\<close>

lemmas date_eval =
  fromisoformat_310_def parse_isoformat_date_def digits_value_def is_digit_def digit_val_def
  valid_date_def days_in_month_def is_leap_def parse_isoformat_time_def parse_hms_def Let_def
  midnight_def

lemma iso_date_time:
  "fromisoformat_310 ''2024-03-10T12:30:00''
   = Some (\<lparr>year = 2024, month = 3, day = 10\<rparr>,
           \<lparr>hour = 12, minute = 30, second = 0, microsecond = 0\<rparr>)"
  by (simp add: date_eval)

lemma iso_date_only:
  "fromisoformat_310 ''2024-03-10'' = Some (\<lparr>year = 2024, month = 3, day = 10\<rparr>, midnight)"
  by (simp add: date_eval)

lemma iso_rejects:
  "fromisoformat_310 ''10.03.2024'' = None" "fromisoformat_310 ''2024-070'' = None"
  by (simp_all add: date_eval)

lemma render_2024_03_10:
  "render fmt_dmy_dot \<lparr>year = 2024, month = 3, day = 10\<rparr> = ''10.03.2024''"
  "render fmt_ymd_dash \<lparr>year = 2024, month = 3, day = 10\<rparr> = ''2024-03-10''"
  by (simp_all add: fmt_dmy_dot_def fmt_ymd_dash_def pad4_def pad2_def digit_char_table)

lemma valid_2024_03_10: "valid_date \<lparr>year = 2024, month = 3, day = 10\<rparr>"
  by (simp add: valid_date_def days_in_month_def)

lemma strftime_2024_03_10:
  "strftime_ymd padded \<lparr>year = 2024, month = 3, day = 10\<rparr> = ''2024-03-10''"
  using strftime_ymd_render [of padded "\<lparr>year = 2024, month = 3, day = 10\<rparr>"]
  by (simp add: render_2024_03_10)

lemma try_formats_ordinal: "try_formats ''2024-070'' common_formats = None"
  by (simp add: common_formats_def strptime_def fmt_ymd_dash_def fmt_dmy_dot_def fmt_mdy_slash_def
      fmt_ymd_slash_def year_alts_def month_alts_def day_alts_def
      two_char_def one_char_def space_digit_def in_range_def is_digit_def digit_val_def
      date_1900_def)

lemma strftime_year_5:
  "strftime_ymd False \<lparr>year = 5, month = 3, day = 10\<rparr> = ''5-03-10''"
  "strftime_ymd False \<lparr>year = 5, month = 1, day = 1\<rparr> = ''5-01-01''"
  by (simp_all add: strftime_ymd_def pad2_def str_nat_digit digit_char_table)

lemma strptime_year_5:
  "strptime ''5-03-10'' fmt_ymd_dash = Inl (no_match_error ''5-03-10'' fmt_ymd_dash)"
  by (simp add: strptime_def fmt_ymd_dash_def year_alts_def is_digit_def)

lemma no_match_year_5:
  "no_match_error ''5-03-10'' fmt_ymd_dash
     = ValueError (''time data '' @ [CHR 0x27] @ ''5-03-10'' @ [CHR 0x27]
                   @ '' does not match format '' @ [CHR 0x27] @ ''%Y-%m-%d'' @ [CHR 0x27])"
  by (simp add: no_match_error_def fmt_ymd_dash_def py_repr_def repr_char_def printable_def Let_def)

subsection \<open>Claims about the date functions\<close>

text \<open>
  C5 (as amended). \<^verbatim>\<open>format_date\<close> returns without raising on every string that
  \<^verbatim>\<open>datetime.fromisoformat\<close> reads, on every date and datetime object, and on every
  valid calendar date written as \<^verbatim>\<open>YYYY-MM-DD\<close>, \<^verbatim>\<open>DD.MM.YYYY\<close>,
  \<^verbatim>\<open>MM/DD/YYYY\<close> or \<^verbatim>\<open>YYYY/MM/DD\<close> (a string that \<^verbatim>\<open>fromisoformat\<close> either
  refuses or reads as that date); what it returns is the date as \<^verbatim>\<open>strftime\<close> writes
  it, which is a string of the shape \<^verbatim>\<open>YYYY-MM-DD\<close> when the year has four digits
  (1000 to 9999) or the platform pads the year; and on a string that writes such a date as
  \<^verbatim>\<open>YYYY-MM-DD\<close> it is the identity.
\<close>

theorem format_date_documented:
  "(parse_iso s = Some (d, t) \<longrightarrow>
      format_date padded parse_iso (DStr s) = Inr (strftime_ymd padded d))
   \<and> format_date padded parse_iso (DDate d) = Inr (strftime_ymd padded d)
   \<and> format_date padded parse_iso (DDateTime d t) = Inr (strftime_ymd padded d)
   \<and> (valid_date d \<and> fmt \<in> set common_formats
        \<and> (parse_iso (render fmt d) = None \<or> (\<exists>t'. parse_iso (render fmt d) = Some (d, t')))
       \<longrightarrow> format_date padded parse_iso (DStr (render fmt d)) = Inr (strftime_ymd padded d))
   \<and> (valid_date d \<and> (padded \<or> 1000 \<le> year d)
       \<longrightarrow> is_ymd_string (strftime_ymd padded d)
           \<and> strftime_ymd padded d = render fmt_ymd_dash d)
   \<and> (valid_date d \<and> (padded \<or> 1000 \<le> year d)
        \<and> (parse_iso (render fmt_ymd_dash d) = None
             \<or> (\<exists>t'. parse_iso (render fmt_ymd_dash d) = Some (d, t')))
       \<longrightarrow> format_date padded parse_iso (DStr (render fmt_ymd_dash d))
             = Inr (render fmt_ymd_dash d))"
proof -
  have a: "parse_iso s = Some (d, t) \<longrightarrow>
      format_date padded parse_iso (DStr s) = Inr (strftime_ymd padded d)"
    using format_date_iso by blast
  have b: "format_date padded parse_iso (DDate d) = Inr (strftime_ymd padded d)"
    and c: "format_date padded parse_iso (DDateTime d t) = Inr (strftime_ymd padded d)"
    by (rule format_date_objects)+
  have e: "valid_date d \<and> fmt \<in> set common_formats
        \<and> (parse_iso (render fmt d) = None \<or> (\<exists>t'. parse_iso (render fmt d) = Some (d, t')))
       \<longrightarrow> format_date padded parse_iso (DStr (render fmt d)) = Inr (strftime_ymd padded d)"
    using date_obj_render [of d fmt parse_iso] by (simp add: format_date_def)
  have f: "valid_date d \<and> (padded \<or> 1000 \<le> year d)
       \<longrightarrow> is_ymd_string (strftime_ymd padded d)
           \<and> strftime_ymd padded d = render fmt_ymd_dash d"
    using is_ymd_string_strftime [of padded d] strftime_ymd_render [of padded d]
      valid_date_ranges(1) [of d] by blast
  have g: "valid_date d \<and> (padded \<or> 1000 \<le> year d)
        \<and> (parse_iso (render fmt_ymd_dash d) = None
             \<or> (\<exists>t'. parse_iso (render fmt_ymd_dash d) = Some (d, t')))
       \<longrightarrow> format_date padded parse_iso (DStr (render fmt_ymd_dash d))
             = Inr (render fmt_ymd_dash d)"
  proof (intro impI, elim conjE)
    assume v: "valid_date d" and p: "padded \<or> 1000 \<le> year d"
      and i: "parse_iso (render fmt_ymd_dash d) = None
             \<or> (\<exists>t'. parse_iso (render fmt_ymd_dash d) = Some (d, t'))"
    have "date_obj parse_iso (DStr (render fmt_ymd_dash d)) = Inr d"
      using v _ i by (rule date_obj_render) (simp add: common_formats_def)
    moreover have "strftime_ymd padded d = render fmt_ymd_dash d"
      using p valid_date_ranges(1) [OF v] by (rule strftime_ymd_render)
    ultimately show "format_date padded parse_iso (DStr (render fmt_ymd_dash d))
             = Inr (render fmt_ymd_dash d)"
      by (simp add: format_date_def)
  qed
  show ?thesis using a b c e f g by blast
qed

theorem format_date_documented_witness:
  "format_date False fromisoformat_310 (DStr ''2024-03-10T12:30:00'') = Inr ''2024-03-10''
   \<and> format_date False fromisoformat_310 (DStr ''10.03.2024'') = Inr ''2024-03-10''
   \<and> format_date False fromisoformat_310 (DStr ''2024-03-10'') = Inr ''2024-03-10''
   \<and> format_date False fromisoformat_310 (DDate \<lparr>year = 2024, month = 3, day = 10\<rparr>)
       = Inr ''2024-03-10''
   \<and> is_ymd_string ''2024-03-10''"
proof -
  let ?d = "\<lparr>year = 2024, month = 3, day = 10\<rparr>"
  let ?t = "\<lparr>hour = 12, minute = 30, second = 0, microsecond = 0\<rparr>"
  note w = format_date_documented
    [of fromisoformat_310 "''2024-03-10T12:30:00''" ?d ?t False fmt_dmy_dot]
  have fmt: "fmt_dmy_dot \<in> set common_formats" by (simp add: common_formats_def)
  have yr: "(1000::nat) \<le> year ?d" by simp
  have "format_date False fromisoformat_310 (DStr ''2024-03-10T12:30:00'')
          = Inr (strftime_ymd False ?d)"
    using w iso_date_time by blast
  then have a: "format_date False fromisoformat_310 (DStr ''2024-03-10T12:30:00'') = Inr ''2024-03-10''"
    by (simp add: strftime_2024_03_10)
  have hb: "fromisoformat_310 (render fmt_dmy_dot ?d) = None"
    by (simp add: render_2024_03_10 iso_rejects)
  have "format_date False fromisoformat_310 (DStr (render fmt_dmy_dot ?d))
          = Inr (strftime_ymd False ?d)"
    using w valid_2024_03_10 fmt hb by blast
  then have b: "format_date False fromisoformat_310 (DStr ''10.03.2024'') = Inr ''2024-03-10''"
    by (simp add: render_2024_03_10 strftime_2024_03_10)
  have hc: "\<exists>t'. fromisoformat_310 (render fmt_ymd_dash ?d) = Some (?d, t')"
    by (simp add: render_2024_03_10 iso_date_only)
  have "format_date False fromisoformat_310 (DStr (render fmt_ymd_dash ?d))
          = Inr (render fmt_ymd_dash ?d)"
    using w valid_2024_03_10 yr hc by blast
  then have c: "format_date False fromisoformat_310 (DStr ''2024-03-10'') = Inr ''2024-03-10''"
    by (simp add: render_2024_03_10)
  have "format_date False fromisoformat_310 (DDate ?d) = Inr (strftime_ymd False ?d)"
    using w by blast
  then have e: "format_date False fromisoformat_310 (DDate ?d) = Inr ''2024-03-10''"
    by (simp add: strftime_2024_03_10)
  have "is_ymd_string (strftime_ymd False ?d)"
    using w valid_2024_03_10 yr by blast
  then have f: "is_ymd_string ''2024-03-10''"
    by (simp add: strftime_2024_03_10)
  show ?thesis using a b c e f by simp
qed

text \<open>
  C5 as it was first stated takes every ISO 8601 string. The ordinal date
  \<^verbatim>\<open>2024-070\<close>, the seventieth day of 2024, is one; \<^verbatim>\<open>fromisoformat\<close> does not
  read it and none of the four formats matches it, so \<^verbatim>\<open>format_date\<close> raises
  ValueError, whether the platform pads the year or not.
\<close>

theorem format_date_ordinal_date:
  "format_date False fromisoformat_310 (DStr ''2024-070'')
     = Inl (ValueError ''Invalid date format: 2024-070'')
   \<and> format_date True fromisoformat_310 (DStr ''2024-070'')
     = Inl (ValueError ''Invalid date format: 2024-070'')"
  by (simp add: format_date_def date_obj_def iso_rejects try_formats_ordinal)

text \<open>
  C8. A start date after the end date is to fail with the message that names both dates.
  So it does when the years have four digits or the platform pads them
  (\<open>validate_date_range_rejects\<close>, and \<open>validate_date_range_2024\<close> for the dates of
  the specification). Where the platform writes the year 5 as \<^verbatim>\<open>5\<close>, the date
  that \<^verbatim>\<open>format_date\<close> has formatted is not read back by
  \<^verbatim>\<open>strptime(..., '%Y-%m-%d')\<close>: for the start 10 March of the year 5 and the end
  1 January of the year 5 the ValueError is that of \<^verbatim>\<open>strptime\<close>, which names one
  date and no ordering.
\<close>

lemma validate_date_range_2024:
  "validate_date_range padded fromisoformat_310 today
     (Some (DStr ''2024-03-10'')) (Some (DStr ''2024-01-01'')) mx
   = Inl (ValueError ''Start date (2024-03-10) is after end date (2024-01-01)'')"
proof -
  let ?s = "\<lparr>year = 2024, month = 3, day = 10\<rparr>" and ?e = "\<lparr>year = 2024, month = 1, day = 1\<rparr>"
  have ie: "fromisoformat_310 ''2024-01-01'' = Some (?e, midnight)" by (simp add: date_eval)
  have e: "date_obj fromisoformat_310 (case Some (DStr ''2024-01-01'') of None \<Rightarrow> DDate today | Some e \<Rightarrow> e) = Inr ?e"
    by (simp add: date_obj_def ie)
  have s: "date_obj fromisoformat_310 (DStr ''2024-03-10'') = Inr ?s"
    by (simp add: date_obj_def iso_date_only)
  have v: "valid_date ?s" "valid_date ?e" by (simp_all add: valid_date_def days_in_month_def)
  have y: "padded \<or> (1000 \<le> year ?s \<and> 1000 \<le> year ?e)" by simp
  have l: "date_less ?e ?s" by (simp add: date_less_def)
  have fe: "strftime_ymd padded ?e = ''2024-01-01''"
    using strftime_ymd_render [of padded ?e]
    by (simp add: fmt_ymd_dash_def pad4_def pad2_def digit_char_table)
  have r: "validate_date_range padded fromisoformat_310 today
     (Some (DStr ''2024-03-10'')) (Some (DStr ''2024-01-01'')) mx
     = Inl (ValueError (''Start date ('' @ strftime_ymd padded ?s
                       @ '') is after end date ('' @ strftime_ymd padded ?e @ '')''))"
    using validate_date_range_rejects [OF e s v y, where mx = mx and m = 0] l by blast
  show ?thesis unfolding r strftime_2024_03_10 fe by simp
qed

theorem validate_date_range_year_5:
  "valid_date \<lparr>year = 5, month = 3, day = 10\<rparr> \<and> valid_date \<lparr>year = 5, month = 1, day = 1\<rparr>
   \<and> date_less \<lparr>year = 5, month = 1, day = 1\<rparr> \<lparr>year = 5, month = 3, day = 10\<rparr>
   \<and> format_date False fromisoformat_310 (DDate \<lparr>year = 5, month = 3, day = 10\<rparr>) = Inr ''5-03-10''
   \<and> validate_date_range False fromisoformat_310 \<lparr>year = 2024, month = 3, day = 10\<rparr>
        (Some (DDate \<lparr>year = 5, month = 3, day = 10\<rparr>))
        (Some (DDate \<lparr>year = 5, month = 1, day = 1\<rparr>)) None
       = Inl (ValueError (''time data '' @ [CHR 0x27] @ ''5-03-10'' @ [CHR 0x27]
                   @ '' does not match format '' @ [CHR 0x27] @ ''%Y-%m-%d'' @ [CHR 0x27]))
   \<and> validate_date_range False fromisoformat_310 \<lparr>year = 2024, month = 3, day = 10\<rparr>
        (Some (DDate \<lparr>year = 5, month = 3, day = 10\<rparr>))
        (Some (DDate \<lparr>year = 5, month = 1, day = 1\<rparr>)) None
       \<noteq> Inl (ValueError (start_after_end_message ''5-03-10'' ''5-01-01''))"
proof -
  have v: "valid_date \<lparr>year = 5, month = 3, day = 10\<rparr>" "valid_date \<lparr>year = 5, month = 1, day = 1\<rparr>"
    by (simp_all add: valid_date_def days_in_month_def)
  have l: "date_less \<lparr>year = 5, month = 1, day = 1\<rparr> \<lparr>year = 5, month = 3, day = 10\<rparr>"
    by (simp add: date_less_def)
  have f: "format_date False fromisoformat_310 (DDate \<lparr>year = 5, month = 3, day = 10\<rparr>) = Inr ''5-03-10''"
    by (simp add: format_date_objects strftime_year_5)
  have r: "validate_date_range False fromisoformat_310 \<lparr>year = 2024, month = 3, day = 10\<rparr>
        (Some (DDate \<lparr>year = 5, month = 3, day = 10\<rparr>))
        (Some (DDate \<lparr>year = 5, month = 1, day = 1\<rparr>)) None
       = Inl (no_match_error ''5-03-10'' fmt_ymd_dash)"
    by (simp add: validate_date_range_def format_date_objects strftime_year_5 strptime_year_5)
  have n: "no_match_error ''5-03-10'' fmt_ymd_dash
             \<noteq> ValueError (start_after_end_message ''5-03-10'' ''5-01-01'')"
    unfolding no_match_year_5 by (simp add: start_after_end_message_def)
  show ?thesis using v l f r n by (simp add: no_match_year_5)
qed

end
